theory Spec2Isabelle
  imports Main
begin

section \<open>Text values\<close>

text \<open>
  The program is \<^verbatim>\<open>prep.py\<close>: it standardises per-state licence files with pandas.
  A Python string is a sequence of Unicode code points; a cell text is modelled as the
  list of its code points. Labels and paths are only compared and searched, and are
  kept as \<^typ>\<open>string\<close>.
\<close>

type_synonym pystr = "int list"

text \<open>The text of a literal of the source such as \<^verbatim>\<open>'Y'\<close>.\<close>

definition lit :: "string \<Rightarrow> pystr" where
  "lit s = map of_char s"

text \<open>
  What \<^verbatim>\<open>str.strip()\<close> and \<^verbatim>\<open>str.title()\<close> do depends on the Unicode tables of the
  Python that runs the program. They are a parameter: which characters are white
  space, which are cased, the title-case form of a character, and the lower-case form
  of a character in its place (the characters before it, the character, the
  characters after it: the lower case of a capital sigma depends on its neighbours).
  The case forms are texts, since a character can have a form of several characters.
\<close>

record unicode =
  is_space :: "int \<Rightarrow> bool"
  is_cased :: "int \<Rightarrow> bool"
  to_title_full :: "int \<Rightarrow> pystr"
  to_lower_at :: "pystr \<Rightarrow> int \<Rightarrow> pystr \<Rightarrow> pystr"

text \<open>\<^verbatim>\<open>str.strip()\<close> removes the leading and the trailing white space.\<close>

definition strip :: "unicode \<Rightarrow> pystr \<Rightarrow> pystr" where
  "strip ud s = rev (dropWhile (is_space ud) (rev (dropWhile (is_space ud) s)))"

text \<open>
  \<^verbatim>\<open>str.title()\<close> walks the string with one flag, whether the previous character
  is cased: a character after a cased one is replaced by its lower-case form, any
  other character by its title-case form.
\<close>

fun do_title :: "unicode \<Rightarrow> bool \<Rightarrow> pystr \<Rightarrow> pystr \<Rightarrow> pystr" where
  "do_title ud previous_is_cased before [] = []"
| "do_title ud previous_is_cased before (c # cs) =
     (if previous_is_cased then to_lower_at ud before c cs else to_title_full ud c)
     @ do_title ud (is_cased ud c) (before @ [c]) cs"

definition title :: "unicode \<Rightarrow> pystr \<Rightarrow> pystr" where
  "title ud s = do_title ud False [] s"

text \<open>
  \<^verbatim>\<open>str.zfill(width)\<close>, which \<^verbatim>\<open>Series.str.zfill\<close> applies to every string of
  the column (since pandas 1.5; earlier releases padded on the left whatever the
  string began with): a string of at least \<open>width\<close> characters is returned as it is; a
  shorter one gets zeros (code point 48) in front, except that a leading sign \<open>+\<close> (43)
  or \<open>-\<close> (45) stays first and the zeros follow it.
\<close>

definition zfill :: "nat \<Rightarrow> pystr \<Rightarrow> pystr" where
  "zfill width s =
     (if width \<le> length s then s
      else let fill = replicate (width - length s) 48 in
        (case s of
           [] \<Rightarrow> fill
         | c # cs \<Rightarrow> if c = 43 \<or> c = 45 then c # fill @ cs else fill @ s))"

text \<open>\<^verbatim>\<open>sub in s\<close> on strings: \<open>sub\<close> occurs in \<open>s\<close> as a contiguous run.\<close>

fun startswith :: "string \<Rightarrow> string \<Rightarrow> bool" where
  "startswith s [] = True"
| "startswith [] (p # ps) = False"
| "startswith (c # cs) (p # ps) = (c = p \<and> startswith cs ps)"

fun contains :: "string \<Rightarrow> string \<Rightarrow> bool" where
  "contains [] sub = (sub = [])"
| "contains (c # cs) sub = (startswith (c # cs) sub \<or> contains cs sub)"

section \<open>Data frames\<close>

text \<open>
  A pandas cell is a string, the missing value \<open>NaN\<close>, or some other scalar (a number
  read from a spreadsheet). A column has a label and a dtype: \<open>object\<close> (what text
  columns have in pandas 1 and 2) or a numeric dtype. A frame is kept row by row under
  its header; the row index plays no part in this program and is left out. The
  exceptions that the modelled calls raise are the values of \<open>error\<close>.
\<close>

datatype cell = is_Str: Str pystr | NaN | Num int

datatype dtype = Object | Numeric

datatype error = KeyError "string list" | AttributeError | TypeError | ValueError | OSError

record frame =
  columns :: "(string \<times> dtype) list"
  rows :: "cell list list"

definition labels :: "frame \<Rightarrow> string list" where
  "labels df = map fst (columns df)"

text \<open>Every row of a frame has one cell per column.\<close>

definition wf_frame :: "frame \<Rightarrow> bool" where
  "wf_frame df = (\<forall>r \<in> set (rows df). length r = length (columns df))"

definition column_at :: "nat \<Rightarrow> frame \<Rightarrow> cell list" where
  "column_at i df = map (\<lambda>r. r ! i) (rows df)"

definition positions :: "string \<Rightarrow> frame \<Rightarrow> nat list" where
  "positions name df = filter (\<lambda>i. fst (columns df ! i) = name) [0..<length (columns df)]"

text \<open>
  The \<^verbatim>\<open>.str\<close> accessor of a column: pandas raises AttributeError unless the dtype
  is object and the values, missing ones aside, are not all non-strings (an empty or
  all-missing object column is accepted). Its methods map the strings and give \<open>NaN\<close>
  for every other cell.
\<close>

definition str_accessible :: "dtype \<Rightarrow> cell list \<Rightarrow> bool" where
  "str_accessible dt cs = (dt = Object \<and> ((\<exists>c \<in> set cs. is_Str c) \<or> (\<forall>c \<in> set cs. c = NaN)))"

fun str_map :: "(pystr \<Rightarrow> pystr) \<Rightarrow> cell \<Rightarrow> cell" where
  "str_map f (Str s) = Str (f s)"
| "str_map f NaN = NaN"
| "str_map f (Num n) = NaN"

text \<open>A row with \<open>g\<close> applied to the cells under the label \<open>name\<close>.\<close>

definition map_label :: "string \<Rightarrow> (cell \<Rightarrow> cell) \<Rightarrow> string list \<Rightarrow> cell list \<Rightarrow> cell list" where
  "map_label name g ls r = map2 (\<lambda>l c. if l = name then g c else c) ls r"

text \<open>
  \<^verbatim>\<open>df.apply(lambda x: x.str.strip() if x.dtype == "object" else x)\<close>: every object
  column is stripped, the others are kept.
\<close>

definition strip_strings :: "unicode \<Rightarrow> frame \<Rightarrow> error + frame" where
  "strip_strings ud df =
     (if \<forall>i \<in> set [0..<length (columns df)].
           snd (columns df ! i) = Object \<longrightarrow> str_accessible Object (column_at i df)
      then Inr (df\<lparr>rows := map (map2 (\<lambda>(l, dt) c. if dt = Object then str_map (strip ud) c else c)
                                   (columns df)) (rows df)\<rparr>)
      else Inl AttributeError)"

text \<open>
  \<^verbatim>\<open>df[name] = df[name].str.f()\<close>: KeyError when no column has the label;
  AttributeError when several have it (the selection is then a frame, which has no
  \<^verbatim>\<open>.str\<close>) or when the column is not accessible.
\<close>

definition str_assign :: "string \<Rightarrow> (pystr \<Rightarrow> pystr) \<Rightarrow> frame \<Rightarrow> error + frame" where
  "str_assign name f df =
     (case positions name df of
        [] \<Rightarrow> Inl (KeyError [name])
      | [i] \<Rightarrow>
          if str_accessible (snd (columns df ! i)) (column_at i df)
          then Inr (df\<lparr>rows := map (map_label name (str_map f) (labels df)) (rows df)\<rparr>)
          else Inl AttributeError
      | _ \<Rightarrow> Inl AttributeError)"

text \<open>\<^verbatim>\<open>drop_duplicates\<close> keeps the first of equal rows (missing values compare equal);
  a frame with no column or no row is returned as it is.\<close>

fun dedup :: "'a list \<Rightarrow> 'a list" where
  "dedup [] = []"
| "dedup (x # xs) = x # dedup (filter (\<lambda>y. y \<noteq> x) xs)"

definition drop_duplicates :: "frame \<Rightarrow> frame" where
  "drop_duplicates df =
     (if columns df = [] \<or> rows df = [] then df else df\<lparr>rows := dedup (rows df)\<rparr>)"

text \<open>\<^verbatim>\<open>df[name] = v\<close> for a scalar \<open>v\<close>: an existing column is overwritten in
  place, a new one is added last; the column's dtype is object.\<close>

definition assign_scalar :: "string \<Rightarrow> cell \<Rightarrow> frame \<Rightarrow> frame" where
  "assign_scalar name v df =
     (if name \<in> set (labels df)
      then \<lparr>columns = map (\<lambda>(l, dt). if l = name then (l, Object) else (l, dt)) (columns df),
            rows = map (map_label name (\<lambda>_. v) (labels df)) (rows df)\<rparr>
      else \<lparr>columns = columns df @ [(name, Object)],
            rows = map (\<lambda>r. r @ [v]) (rows df)\<rparr>)"

text \<open>\<^verbatim>\<open>df[name] = df[name].apply(g)\<close> for a column that is there.\<close>

definition apply_assign :: "string \<Rightarrow> (cell \<Rightarrow> cell) \<Rightarrow> frame \<Rightarrow> frame" where
  "apply_assign name g df = df\<lparr>rows := map (map_label name g (labels df)) (rows df)\<rparr>"

text \<open>
  \<^verbatim>\<open>df.reindex(columns=target)\<close>: the columns of \<open>target\<close> in that order; a label
  the frame does not have gives a column of missing values. pandas refuses (ValueError)
  to reindex a frame in which a label is repeated.
\<close>

definition lookup :: "string list \<Rightarrow> cell list \<Rightarrow> string \<Rightarrow> cell" where
  "lookup ls r name = (case map_of (zip ls r) name of Some c \<Rightarrow> c | None \<Rightarrow> NaN)"

definition reindex :: "string list \<Rightarrow> frame \<Rightarrow> error + frame" where
  "reindex target df =
     (if \<not> distinct (labels df) then Inl ValueError
      else Inr \<lparr>columns = map (\<lambda>l. (l, case map_of (columns df) l of Some dt \<Rightarrow> dt | None \<Rightarrow> Numeric)) target,
                rows = map (\<lambda>r. map (lookup (labels df) r) target) (rows df)\<rparr>)"

section \<open>The common finisher\<close>

definition to_title :: "string list" where
  "to_title = [''FirstName'', ''MiddleName'', ''LastName'', ''Street'', ''City'']"

definition std_columns :: "string list" where
  "std_columns = [''FirstName'', ''MiddleName'', ''LastName'', ''Suffix'', ''Street'', ''City'',
                  ''State'', ''Zip'', ''Hunt'', ''Fish'']"

text \<open>The loop \<^verbatim>\<open>for column in to_title: df[column] = df[column].str.title()\<close>.\<close>

fun title_columns :: "unicode \<Rightarrow> string list \<Rightarrow> frame \<Rightarrow> error + frame" where
  "title_columns ud [] df = Inr df"
| "title_columns ud (column # cs) df =
     (case str_assign column (title ud) df of
        Inl e \<Rightarrow> Inl e
      | Inr df' \<Rightarrow> title_columns ud cs df')"

text \<open>\<^verbatim>\<open>Prep._common(df, PATH)\<close>, step by step as in the source.\<close>

definition common :: "unicode \<Rightarrow> frame \<Rightarrow> string \<Rightarrow> error + frame" where
  "common ud df PATH =
     (case strip_strings ud df of
        Inl e \<Rightarrow> Inl e
      | Inr df1 \<Rightarrow>
     (case str_assign ''Zip'' (zfill 5) df1 of
        Inl e \<Rightarrow> Inl e
      | Inr df2 \<Rightarrow>
     (case title_columns ud to_title df2 of
        Inl e \<Rightarrow> Inl e
      | Inr df3 \<Rightarrow>
          let df4 = drop_duplicates df3;
              df5 = assign_scalar ''Hunt'' (Str []) df4;
              df6 = assign_scalar ''Fish'' (Str []) df5;
              df7 = apply_assign ''Hunt'' (\<lambda>x. if contains PATH ''Hunt'' then Str (lit ''Y'') else x) df6;
              df8 = apply_assign ''Fish'' (\<lambda>x. if contains PATH ''Fish'' then Str (lit ''Y'') else x) df7
          in reindex std_columns df8)))"

section \<open>State transforms\<close>

text \<open>
  What the program gets from outside is a parameter: the Unicode tables, the file
  system (\<^verbatim>\<open>listdir\<close>, which fails for a directory that is not there, and
  \<^verbatim>\<open>isfile\<close>), the two readers of pandas (\<^verbatim>\<open>read_csv(PATH, sep='\t', dtype=str)\<close>
  and \<^verbatim>\<open>read_excel(PATH, sheet_name=None, header=None)\<close>, which gives the sheets
  of the workbook in order), and the exception in which the run ends when
  \<^verbatim>\<open>getattr(prep, method)(file)\<close> is evaluated for a name that \<open>Prep\<close> does not define
  (Python's object model decides: AttributeError for a name that the object does not
  have, TypeError for an attribute inherited from \<open>object\<close>, which cannot be called like
  this or returns nothing that can be concatenated).
\<close>

record env =
  unicode_db :: unicode
  listdir :: "string \<Rightarrow> string list option"
  isfile :: "string \<Rightarrow> bool"
  read_csv :: "string \<Rightarrow> error + frame"
  read_excel :: "string \<Rightarrow> error + frame list"
  other_attribute :: "string \<Rightarrow> error"

text \<open>\<^verbatim>\<open>df.drop(columns=names)\<close>: KeyError when a label of \<open>names\<close> is not a
  column; otherwise the columns with these labels are removed.\<close>

definition drop_columns :: "string list \<Rightarrow> frame \<Rightarrow> error + frame" where
  "drop_columns names df =
     (case filter (\<lambda>n. n \<notin> set (labels df)) names of
        [] \<Rightarrow>
          Inr \<lparr>columns = filter (\<lambda>(l, dt). l \<notin> set names) (columns df),
               rows = map (\<lambda>r. map snd (filter (\<lambda>(l, c). l \<notin> set names) (zip (labels df) r)))
                        (rows df)\<rparr>
      | n # ns \<Rightarrow> Inl (KeyError (n # ns)))"

text \<open>\<^verbatim>\<open>df.rename(columns=mapping)\<close>: labels that are keys of the mapping are
  replaced, the others stay.\<close>

definition rename :: "(string \<times> string) list \<Rightarrow> frame \<Rightarrow> frame" where
  "rename mapping df =
     df\<lparr>columns := map (\<lambda>(l, dt). (case map_of mapping l of Some l' \<Rightarrow> l' | None \<Rightarrow> l, dt))
                        (columns df)\<rparr>"

definition ne_required :: "string list" where
  "ne_required = [''permitYear'', ''Permit Type'', ''FullName'']"

definition ne_names :: "(string \<times> string) list" where
  "ne_names = [(''firstName'', ''FirstName''), (''middleName'', ''MiddleName''),
               (''lastName'', ''LastName''), (''street'', ''Street''), (''city'', ''City''),
               (''state'', ''State''), (''zip'', ''Zip'')]"

text \<open>\<^verbatim>\<open>Prep.nebraska(PATH)\<close>.\<close>

definition nebraska :: "env \<Rightarrow> string \<Rightarrow> error + frame" where
  "nebraska ev PATH =
     (case read_csv ev PATH of
        Inl e \<Rightarrow> Inl e
      | Inr df \<Rightarrow>
     (case (if ''Sex'' \<in> set (labels df) then drop_columns [''Sex''] df else Inr df) of
        Inl e \<Rightarrow> Inl e
      | Inr df1 \<Rightarrow>
     (case (if ''email'' \<in> set (labels df1) then drop_columns [''email''] df1 else Inr df1) of
        Inl e \<Rightarrow> Inl e
      | Inr df2 \<Rightarrow>
     (case drop_columns ne_required df2 of
        Inl e \<Rightarrow> Inl e
      | Inr df3 \<Rightarrow> common (unicode_db ev) (rename ne_names df3) PATH))))"

text \<open>
  \<^verbatim>\<open>pd.concat(frames)\<close>: ValueError when there is nothing to concatenate. Frames with
  the same labels are put one under the other. Otherwise the labels are joined in the
  order of their first appearance and a frame gets missing values in the columns it
  does not have; pandas cannot join labels when a frame repeats one. A column of the
  result is of object dtype as soon as one of its parts is.
\<close>

definition join_dtype :: "dtype list \<Rightarrow> dtype" where
  "join_dtype dts = (if Object \<in> set dts then Object else Numeric)"

definition pd_concat :: "frame list \<Rightarrow> error + frame" where
  "pd_concat dfs =
     (case dfs of
        [] \<Rightarrow> Inl ValueError
      | d # ds \<Rightarrow>
          if \<forall>df \<in> set ds. labels df = labels d
          then Inr \<lparr>columns = map (\<lambda>i. (labels d ! i, join_dtype (map (\<lambda>df. snd (columns df ! i)) dfs)))
                                  [0..<length (columns d)],
                    rows = concat (map rows dfs)\<rparr>
          else if \<exists>df \<in> set dfs. \<not> distinct (labels df) then Inl ValueError
          else
            let ls = dedup (concat (map labels dfs)) in
            Inr \<lparr>columns = map (\<lambda>l. (l, join_dtype (concat (map (\<lambda>df.
                                   case map_of (columns df) l of Some dt \<Rightarrow> [dt] | None \<Rightarrow> []) dfs)))) ls,
                 rows = concat (map (\<lambda>df. map (\<lambda>r. map (lookup (labels df) r) ls) (rows df)) dfs)\<rparr>)"

text \<open>\<^verbatim>\<open>df.columns = names\<close>: ValueError unless there is one name per column.\<close>

definition set_columns :: "string list \<Rightarrow> frame \<Rightarrow> error + frame" where
  "set_columns names df =
     (if length names \<noteq> length (columns df) then Inl ValueError
      else Inr (df\<lparr>columns := zip names (map snd (columns df))\<rparr>))"

definition nd_names :: "string list" where
  "nd_names = [''LastName'', ''FirstName'', ''MiddleName'', ''Street'', ''City'', ''State'', ''Zip'']"

text \<open>\<^verbatim>\<open>Prep.north_dakota(PATH)\<close>.\<close>

definition north_dakota :: "env \<Rightarrow> string \<Rightarrow> error + frame" where
  "north_dakota ev PATH =
     (case read_excel ev PATH of
        Inl e \<Rightarrow> Inl e
      | Inr sheets \<Rightarrow>
     (case pd_concat sheets of
        Inl e \<Rightarrow> Inl e
      | Inr df \<Rightarrow>
     (case set_columns nd_names df of
        Inl e \<Rightarrow> Inl e
      | Inr df1 \<Rightarrow> common (unicode_db ev) df1 PATH)))"

section \<open>The state aggregator\<close>

text \<open>\<^verbatim>\<open>os.path.join(a, b)\<close> on POSIX paths.\<close>

definition join :: "string \<Rightarrow> string \<Rightarrow> string" where
  "join a b =
     (if startswith b ''/'' then b
      else if a = [] \<or> last a = CHR ''/'' then a @ b
      else a @ ''/'' @ b)"

text \<open>The files of each folder, folder by folder; a folder that cannot be listed stops
  the loop with its error.\<close>

fun folder_files :: "env \<Rightarrow> string list \<Rightarrow> error + string list list" where
  "folder_files ev [] = Inr []"
| "folder_files ev (folder # folders) =
     (case listdir ev folder of
        None \<Rightarrow> Inl OSError
      | Some names \<Rightarrow>
          (case folder_files ev folders of
             Inl e \<Rightarrow> Inl e
           | Inr files \<Rightarrow>
               Inr (map (join folder) (filter (\<lambda>f. isfile ev (join folder f)) names) # files)))"

text \<open>The source files of a state: the first half of \<^verbatim>\<open>prep_state\<close>.\<close>

definition state_files :: "env \<Rightarrow> string \<Rightarrow> error + string list" where
  "state_files ev state_dir =
     (case listdir ev state_dir of
        None \<Rightarrow> Inl OSError
      | Some names \<Rightarrow>
          let folders = map (join state_dir) (filter (\<lambda>f. \<not> isfile ev (join state_dir f)) names) in
          (case folder_files ev folders of
             Inl e \<Rightarrow> Inl e
           | Inr files \<Rightarrow> Inr (concat files)))"

text \<open>
  \<^verbatim>\<open>getattr(prep, method)\<close>, called with the file: the transform of that name.
  \<open>_common\<close> is found too, but takes two arguments, so that the call raises TypeError.
  For any other name see \<open>other_attribute\<close> above.
\<close>

definition getattr_prep :: "env \<Rightarrow> string \<Rightarrow> error + (string \<Rightarrow> error + frame)" where
  "getattr_prep ev method =
     (if method = ''nebraska'' then Inr (nebraska ev)
      else if method = ''north_dakota'' then Inr (north_dakota ev)
      else if method = ''_common'' then Inl TypeError
      else Inl (other_attribute ev method))"

fun call_each :: "env \<Rightarrow> string \<Rightarrow> string list \<Rightarrow> error + frame list" where
  "call_each ev method [] = Inr []"
| "call_each ev method (file # files) =
     (case getattr_prep ev method of
        Inl e \<Rightarrow> Inl e
      | Inr transform \<Rightarrow>
     (case transform file of
        Inl e \<Rightarrow> Inl e
      | Inr df \<Rightarrow>
     (case call_each ev method files of
        Inl e \<Rightarrow> Inl e
      | Inr dfs \<Rightarrow> Inr (df # dfs))))"

text \<open>\<^verbatim>\<open>prep_state(state_dir, method)\<close>.\<close>

definition prep_state :: "env \<Rightarrow> string \<Rightarrow> string \<Rightarrow> error + frame" where
  "prep_state ev state_dir method =
     (case state_files ev state_dir of
        Inl e \<Rightarrow> Inl e
      | Inr files \<Rightarrow>
     (case call_each ev method files of
        Inl e \<Rightarrow> Inl e
      | Inr dfs \<Rightarrow>
     (case pd_concat dfs of
        Inl e \<Rightarrow> Inl e
      | Inr df \<Rightarrow> Inr (drop_duplicates df))))"

section \<open>Notions used in the statements\<close>

text \<open>A text without leading or trailing white space.\<close>

definition stripped :: "unicode \<Rightarrow> pystr \<Rightarrow> bool" where
  "stripped ud s = (s = [] \<or> (\<not> is_space ud (hd s) \<and> \<not> is_space ud (last s)))"

text \<open>
  What the first three steps of the finisher do to one cell, given its column, and to a
  row under a header; the tag a path gives; and the row and the header that the last
  steps build.
\<close>

definition clean_cell :: "unicode \<Rightarrow> string \<times> dtype \<Rightarrow> cell \<Rightarrow> cell" where
  "clean_cell ud h c =
     (let c1 = (if snd h = Object then str_map (strip ud) c else c);
          c2 = (if fst h = ''Zip'' then str_map (zfill 5) c1 else c1)
      in if fst h \<in> set to_title then str_map (title ud) c2 else c2)"

definition clean_row :: "unicode \<Rightarrow> (string \<times> dtype) list \<Rightarrow> cell list \<Rightarrow> cell list" where
  "clean_row ud hdr r = map2 (clean_cell ud) hdr r"

definition tag :: "string \<Rightarrow> string \<Rightarrow> cell" where
  "tag PATH name = Str (if contains PATH name then lit ''Y'' else [])"

definition finish_row :: "string list \<Rightarrow> string \<Rightarrow> cell list \<Rightarrow> cell list" where
  "finish_row ls PATH r =
     map (\<lambda>n. if n = ''Hunt'' then tag PATH ''Hunt''
              else if n = ''Fish'' then tag PATH ''Fish''
              else lookup ls r n) std_columns"

definition out_columns :: "(string \<times> dtype) list \<Rightarrow> (string \<times> dtype) list" where
  "out_columns hdr =
     map (\<lambda>l. (l, if l = ''Hunt'' \<or> l = ''Fish'' then Object
                  else (case map_of hdr l of Some dt \<Rightarrow> dt | None \<Rightarrow> Numeric))) std_columns"

text \<open>The labels and a row after \<^verbatim>\<open>df[n] = v\<close>.\<close>

definition set_label :: "string \<Rightarrow> string list \<Rightarrow> string list" where
  "set_label n ls = (if n \<in> set ls then ls else ls @ [n])"

definition set_cell :: "string \<Rightarrow> cell \<Rightarrow> string list \<Rightarrow> cell list \<Rightarrow> cell list" where
  "set_cell n v ls r = (if n \<in> set ls then map_label n (\<lambda>_. v) ls r else r @ [v])"

text \<open>Every cell of an object column is a string or missing; and the condition under
  which the first step of the finisher raises nothing.\<close>

definition texty :: "frame \<Rightarrow> bool" where
  "texty df = (\<forall>r \<in> set (rows df). \<forall>(h, c) \<in> set (zip (columns df) r). snd h = Object \<longrightarrow> (is_Str c \<or> c = NaN))"

definition strip_check :: "frame \<Rightarrow> bool" where
  "strip_check df = (\<forall>i \<in> set [0..<length (columns df)].
           snd (columns df ! i) = Object \<longrightarrow> str_accessible Object (column_at i df))"

text \<open>The eight data columns of the standard record: the standard columns without the
  two tags.\<close>

definition data_columns :: "string list" where
  "data_columns = [''FirstName'', ''MiddleName'', ''LastName'', ''Suffix'', ''Street'', ''City'',
                   ''State'', ''Zip'']"

text \<open>
  What \<^verbatim>\<open>read_csv\<close> with \<^verbatim>\<open>dtype=str\<close> returns: labels that are not repeated,
  object columns only, and cells that are strings or missing.
\<close>

definition csv_frame :: "frame \<Rightarrow> bool" where
  "csv_frame df = (wf_frame df \<and> distinct (labels df)
     \<and> (\<forall>h \<in> set (columns df). snd h = Object)
     \<and> (\<forall>r \<in> set (rows df). \<forall>c \<in> set r. is_Str c \<or> c = NaN))"

text \<open>The columns of a Nebraska file that the finisher needs, under the file's names
  for them; and what the renaming does to a label.\<close>

definition ne_source :: "string list" where
  "ne_source = [''firstName'', ''middleName'', ''lastName'', ''street'', ''city'', ''zip'']"

definition ne_label :: "string \<Rightarrow> string" where
  "ne_label l = (case map_of ne_names l of Some l' \<Rightarrow> l' | None \<Rightarrow> l)"

text \<open>
  ASCII text, and what the Unicode tables say of the ASCII characters: white space is
  9 to 13, 28 to 31 and the blank; the cased characters are the letters; a letter has
  its capital as title-case form and its small letter as lower-case form, and any other
  character is its own form. \<open>ascii_title\<close> is \<^verbatim>\<open>str.title()\<close> on ASCII text.
\<close>

definition ascii_text :: "pystr \<Rightarrow> bool" where
  "ascii_text s = (\<forall>c \<in> set s. 0 \<le> c \<and> c < 128)"

definition ascii_letter :: "int \<Rightarrow> bool" where
  "ascii_letter c = ((65 \<le> c \<and> c \<le> 90) \<or> (97 \<le> c \<and> c \<le> 122))"

definition ascii_upper :: "int \<Rightarrow> int" where
  "ascii_upper c = (if 97 \<le> c \<and> c \<le> 122 then c - 32 else c)"

definition ascii_lower :: "int \<Rightarrow> int" where
  "ascii_lower c = (if 65 \<le> c \<and> c \<le> 90 then c + 32 else c)"

definition ascii_space :: "int \<Rightarrow> bool" where
  "ascii_space c = ((9 \<le> c \<and> c \<le> 13) \<or> (28 \<le> c \<and> c \<le> 32))"

fun ascii_title :: "bool \<Rightarrow> pystr \<Rightarrow> pystr" where
  "ascii_title previous_is_cased [] = []"
| "ascii_title previous_is_cased (c # cs) =
     (if previous_is_cased then ascii_lower c else ascii_upper c) # ascii_title (ascii_letter c) cs"

definition ascii_tables :: "unicode \<Rightarrow> bool" where
  "ascii_tables ud = (\<forall>c. 0 \<le> c \<and> c < 128 \<longrightarrow>
       is_space ud c = ascii_space c \<and> is_cased ud c = ascii_letter c
     \<and> to_title_full ud c = [ascii_upper c]
     \<and> (\<forall>before after. to_lower_at ud before c after = [ascii_lower c]))"

text \<open>The texts of the five columns that are title-cased are ASCII.\<close>

definition ascii_cell :: "cell \<Rightarrow> bool" where
  "ascii_cell c = (case c of Str s \<Rightarrow> ascii_text s | _ \<Rightarrow> True)"

definition ascii_titles :: "frame \<Rightarrow> bool" where
  "ascii_titles df = (\<forall>r \<in> set (rows df). \<forall>(h, c) \<in> set (zip (columns df) r).
       fst h \<in> set to_title \<longrightarrow> ascii_cell c)"

section \<open>Sample files\<close>

text \<open>
  The tables of Unicode on the characters that the samples hold: the ASCII characters,
  the white space characters, the capital I with dot above (304), whose lower-case form
  is an i followed by the combining dot above (775), and that combining dot, which is
  not cased. Every other character is taken as caseless here.
\<close>

definition sample_ud :: unicode where
  "sample_ud =
     \<lparr>is_space = (\<lambda>c. ascii_space c \<or> c = 133 \<or> c = 160 \<or> c = 5760 \<or> (8192 \<le> c \<and> c \<le> 8202)
                        \<or> c = 8232 \<or> c = 8233 \<or> c = 8239 \<or> c = 8287 \<or> c = 12288),
      is_cased = (\<lambda>c. ascii_letter c \<or> c = 304),
      to_title_full = (\<lambda>c. [ascii_upper c]),
      to_lower_at = (\<lambda>before c after. if c = 304 then [105, 775] else [ascii_lower c])\<rparr>"

text \<open>A small Nebraska file and what the finisher makes of it. The Zip of the second
  row begins with a no-break space (160).\<close>

definition demo_frame :: frame where
  "demo_frame =
     \<lparr>columns = [(''FirstName'', Object), (''MiddleName'', Object), (''LastName'', Object),
                 (''Street'', Object), (''City'', Object), (''State'', Object), (''Zip'', Object)],
      rows = [[Str (lit ''john ''), Str (lit ''q''), Str (lit ''doe''), Str (lit ''123 main st''), Str (lit ''lincoln''), Str (lit ''NE''), Str (lit ''685'')],
              [Str (lit ''john''), Str (lit ''Q''), Str (lit ''DOE''), Str (lit ''123 MAIN ST''), Str (lit ''lincoln''), Str (lit ''NE''), Str (160 # lit ''685'')],
              [Str (lit ''jane''), NaN, Str (lit ''roe''), Str (lit ''3 elm ave''), Str (lit ''omaha''), Str (lit ''NE''), Str (lit ''681021234'')]]\<rparr>"

definition demo_out :: frame where
  "demo_out =
     \<lparr>columns = [(''FirstName'', Object), (''MiddleName'', Object), (''LastName'', Object),
                 (''Suffix'', Numeric), (''Street'', Object), (''City'', Object), (''State'', Object),
                 (''Zip'', Object), (''Hunt'', Object), (''Fish'', Object)],
      rows = [[Str (lit ''John''), Str (lit ''Q''), Str (lit ''Doe''), NaN, Str (lit ''123 Main St''), Str (lit ''Lincoln''), Str (lit ''NE''),
               Str (lit ''00685''), Str (lit ''Y''), Str []],
              [Str (lit ''Jane''), NaN, Str (lit ''Roe''), NaN, Str (lit ''3 Elm Ave''), Str (lit ''Omaha''), Str (lit ''NE''),
               Str (lit ''681021234''), Str (lit ''Y''), Str []]]\<rparr>"

text \<open>A file with a nine-digit Zip and an empty Zip field, and what the finisher makes
  of it.\<close>

definition long_zip_frame :: frame where
  "long_zip_frame =
     \<lparr>columns = [(''FirstName'', Object), (''MiddleName'', Object), (''LastName'', Object),
                 (''Street'', Object), (''City'', Object), (''State'', Object), (''Zip'', Object)],
      rows = [[Str (lit ''jane''), Str (lit ''a''), Str (lit ''roe''), Str (lit ''3 elm ave''),
               Str (lit ''omaha''), Str (lit ''NE''), Str (lit ''681021234'')],
              [Str (lit ''tom''), Str (lit ''b''), Str (lit ''poe''), Str (lit ''4 elm ave''),
               Str (lit ''omaha''), Str (lit ''NE''), NaN]]\<rparr>"

definition long_zip_out :: frame where
  "long_zip_out =
     \<lparr>columns = [(''FirstName'', Object), (''MiddleName'', Object), (''LastName'', Object),
                 (''Suffix'', Numeric), (''Street'', Object), (''City'', Object), (''State'', Object),
                 (''Zip'', Object), (''Hunt'', Object), (''Fish'', Object)],
      rows = [[Str (lit ''Jane''), Str (lit ''A''), Str (lit ''Roe''), NaN, Str (lit ''3 Elm Ave''),
               Str (lit ''Omaha''), Str (lit ''NE''), Str (lit ''681021234''), Str [], Str (lit ''Y'')],
              [Str (lit ''Tom''), Str (lit ''B''), Str (lit ''Poe''), NaN, Str (lit ''4 Elm Ave''),
               Str (lit ''Omaha''), Str (lit ''NE''), NaN, Str [], Str (lit ''Y'')]]\<rparr>"

text \<open>A file in which a Zip has a sign in front, and what the finisher makes of it.\<close>

definition signed_zip_frame :: frame where
  "signed_zip_frame =
     \<lparr>columns = [(''FirstName'', Object), (''MiddleName'', Object), (''LastName'', Object),
                 (''Street'', Object), (''City'', Object), (''State'', Object), (''Zip'', Object)],
      rows = [[Str (lit ''jane''), Str (lit ''a''), Str (lit ''roe''), Str (lit ''3 elm ave''),
               Str (lit ''omaha''), Str (lit ''NE''), Str (lit ''-12'')],
              [Str (lit ''tom''), Str (lit ''b''), Str (lit ''poe''), Str (lit ''4 elm ave''),
               Str (lit ''omaha''), Str (lit ''NE''), Str (lit ''A1'')]]\<rparr>"

definition signed_zip_out :: frame where
  "signed_zip_out =
     \<lparr>columns = [(''FirstName'', Object), (''MiddleName'', Object), (''LastName'', Object),
                 (''Suffix'', Numeric), (''Street'', Object), (''City'', Object), (''State'', Object),
                 (''Zip'', Object), (''Hunt'', Object), (''Fish'', Object)],
      rows = [[Str (lit ''Jane''), Str (lit ''A''), Str (lit ''Roe''), NaN, Str (lit ''3 Elm Ave''),
               Str (lit ''Omaha''), Str (lit ''NE''), Str (lit ''-0012''), Str (lit ''Y''), Str []],
              [Str (lit ''Tom''), Str (lit ''B''), Str (lit ''Poe''), NaN, Str (lit ''4 Elm Ave''),
               Str (lit ''Omaha''), Str (lit ''NE''), Str (lit ''000A1''), Str (lit ''Y''), Str []]]\<rparr>"

text \<open>A North Dakota workbook of two sheets in which every cell is text (the Zips are
  of the nine-digit form), the environment that reads it, and the result. A sheet read
  without a header has its columns numbered from 0; the numbers stand here as labels.\<close>

definition nd_sheets :: "frame list" where
  "nd_sheets =
     [\<lparr>columns = [(''0'', Object), (''1'', Object), (''2'', Object), (''3'', Object), (''4'', Object),
                  (''5'', Object), (''6'', Object)],
       rows = [[Str (lit ''olson''), Str (lit ''ann''), Str (lit ''m''), Str (lit ''1 main st''),
                Str (lit ''fargo''), Str (lit ''ND''), Str (lit ''58102-0001'')]]\<rparr>,
      \<lparr>columns = [(''0'', Object), (''1'', Object), (''2'', Object), (''3'', Object), (''4'', Object),
                  (''5'', Object), (''6'', Object)],
       rows = [[Str (lit ''berg''), Str (lit ''ole''), Str (lit ''k''), Str (lit ''2 oak st''),
                Str (lit ''minot''), Str (lit ''ND''), Str (lit ''58701-0002'')]]\<rparr>]"

definition nd_env :: env where
  "nd_env = \<lparr>unicode_db = sample_ud, listdir = (\<lambda>d. None), isfile = (\<lambda>p. False),
             read_csv = (\<lambda>p. Inl OSError), read_excel = (\<lambda>p. Inr nd_sheets),
             other_attribute = (\<lambda>m. AttributeError)\<rparr>"

definition nd_out :: frame where
  "nd_out =
     \<lparr>columns = [(''FirstName'', Object), (''MiddleName'', Object), (''LastName'', Object),
                 (''Suffix'', Numeric), (''Street'', Object), (''City'', Object), (''State'', Object),
                 (''Zip'', Object), (''Hunt'', Object), (''Fish'', Object)],
      rows = [[Str (lit ''Ann''), Str (lit ''M''), Str (lit ''Olson''), NaN, Str (lit ''1 Main St''),
               Str (lit ''Fargo''), Str (lit ''ND''), Str (lit ''58102-0001''), Str (lit ''Y''), Str []],
              [Str (lit ''Ole''), Str (lit ''K''), Str (lit ''Berg''), NaN, Str (lit ''2 Oak St''),
               Str (lit ''Minot''), Str (lit ''ND''), Str (lit ''58701-0002''), Str (lit ''Y''), Str []]]\<rparr>"

text \<open>A file with the eight standard data columns and no row, and its result.\<close>

definition empty_frame :: frame where
  "empty_frame =
     \<lparr>columns = [(''FirstName'', Object), (''MiddleName'', Object), (''LastName'', Object),
                 (''Suffix'', Object), (''Street'', Object), (''City'', Object), (''State'', Object),
                 (''Zip'', Object)],
      rows = []\<rparr>"

definition empty_out :: frame where
  "empty_out =
     \<lparr>columns = [(''FirstName'', Object), (''MiddleName'', Object), (''LastName'', Object),
                 (''Suffix'', Object), (''Street'', Object), (''City'', Object), (''State'', Object),
                 (''Zip'', Object), (''Hunt'', Object), (''Fish'', Object)],
      rows = []\<rparr>"

text \<open>Two Nebraska files, one with the optional columns missing and one without
  \<open>permitYear\<close>, and the environment that reads them.\<close>

definition ne_plain :: frame where
  "ne_plain =
     \<lparr>columns = [(''permitYear'', Object), (''Permit Type'', Object), (''FullName'', Object),
                 (''firstName'', Object), (''middleName'', Object), (''lastName'', Object),
                 (''street'', Object), (''city'', Object), (''state'', Object), (''zip'', Object)],
      rows = [[Str (lit ''2019''), Str (lit ''Deer''), Str (lit ''John Q Doe''), Str (lit ''John''), Str (lit ''Q''), Str (lit ''Doe''),
               Str (lit ''123 Main St''), Str (lit ''Lincoln''), Str (lit ''NE''), Str (lit ''685'')]]\<rparr>"

definition ne_no_year :: frame where
  "ne_no_year =
     \<lparr>columns = [(''Sex'', Object), (''Permit Type'', Object), (''FullName'', Object),
                 (''firstName'', Object), (''middleName'', Object), (''lastName'', Object),
                 (''street'', Object), (''city'', Object), (''state'', Object), (''zip'', Object)],
      rows = [[Str (lit ''M''), Str (lit ''Deer''), Str (lit ''John Q Doe''), Str (lit ''John''), Str (lit ''Q''), Str (lit ''Doe''),
               Str (lit ''123 Main St''), Str (lit ''Lincoln''), Str (lit ''NE''), Str (lit ''685'')]]\<rparr>"

definition ne_env :: env where
  "ne_env = \<lparr>unicode_db = sample_ud, listdir = (\<lambda>d. None), isfile = (\<lambda>p. False),
             read_csv = (\<lambda>p. if p = ''Nebraska/Hunt/plain.txt'' then Inr ne_plain
                              else if p = ''Nebraska/Hunt/no_year.txt'' then Inr ne_no_year
                              else Inl OSError),
             read_excel = (\<lambda>p. Inl OSError), other_attribute = (\<lambda>m. AttributeError)\<rparr>"

definition ne_plain_out :: frame where
  "ne_plain_out =
     \<lparr>columns = [(''FirstName'', Object), (''MiddleName'', Object), (''LastName'', Object),
                 (''Suffix'', Numeric), (''Street'', Object), (''City'', Object), (''State'', Object),
                 (''Zip'', Object), (''Hunt'', Object), (''Fish'', Object)],
      rows = [[Str (lit ''John''), Str (lit ''Q''), Str (lit ''Doe''), NaN, Str (lit ''123 Main St''), Str (lit ''Lincoln''), Str (lit ''NE''),
               Str (lit ''00685''), Str (lit ''Y''), Str []]]\<rparr>"

text \<open>A file with a column beyond the standard ones, in which two rows differ only in
  that column; the result of the finisher, and the result of the finisher on that.\<close>

definition extra_frame :: frame where
  "extra_frame =
     \<lparr>columns = [(''FirstName'', Object), (''MiddleName'', Object), (''LastName'', Object),
                 (''Street'', Object), (''City'', Object), (''State'', Object), (''Zip'', Object),
                 (''County'', Object)],
      rows = [[Str (lit ''John''), Str (lit ''Q''), Str (lit ''Doe''), Str (lit ''123 Main St''), Str (lit ''Lincoln''), Str (lit ''NE''),
               Str (lit ''68501''), Str (lit ''Lancaster'')],
              [Str (lit ''John''), Str (lit ''Q''), Str (lit ''Doe''), Str (lit ''123 Main St''), Str (lit ''Lincoln''), Str (lit ''NE''),
               Str (lit ''68501''), Str (lit ''Seward'')]]\<rparr>"

definition extra_out :: frame where
  "extra_out =
     \<lparr>columns = [(''FirstName'', Object), (''MiddleName'', Object), (''LastName'', Object),
                 (''Suffix'', Numeric), (''Street'', Object), (''City'', Object), (''State'', Object),
                 (''Zip'', Object), (''Hunt'', Object), (''Fish'', Object)],
      rows = [[Str (lit ''John''), Str (lit ''Q''), Str (lit ''Doe''), NaN, Str (lit ''123 Main St''), Str (lit ''Lincoln''), Str (lit ''NE''),
               Str (lit ''68501''), Str (lit ''Y''), Str []],
              [Str (lit ''John''), Str (lit ''Q''), Str (lit ''Doe''), NaN, Str (lit ''123 Main St''), Str (lit ''Lincoln''), Str (lit ''NE''),
               Str (lit ''68501''), Str (lit ''Y''), Str []]]\<rparr>"

definition extra_out2 :: frame where
  "extra_out2 =
     \<lparr>columns = [(''FirstName'', Object), (''MiddleName'', Object), (''LastName'', Object),
                 (''Suffix'', Numeric), (''Street'', Object), (''City'', Object), (''State'', Object),
                 (''Zip'', Object), (''Hunt'', Object), (''Fish'', Object)],
      rows = [[Str (lit ''John''), Str (lit ''Q''), Str (lit ''Doe''), NaN, Str (lit ''123 Main St''), Str (lit ''Lincoln''), Str (lit ''NE''),
               Str (lit ''68501''), Str (lit ''Y''), Str []]]\<rparr>"

text \<open>
  A Nebraska folder with two hunting files that hold the same person, an empty fishing
  folder and a stray file; and a Nebraska folder whose only category folder is empty.
\<close>

definition ne_with_sex :: frame where
  "ne_with_sex =
     \<lparr>columns = [(''Sex'', Object), (''permitYear'', Object), (''Permit Type'', Object),
                 (''FullName'', Object), (''firstName'', Object), (''middleName'', Object),
                 (''lastName'', Object), (''street'', Object), (''city'', Object), (''state'', Object),
                 (''zip'', Object)],
      rows = [[Str (lit ''M''), Str (lit ''2020''), Str (lit ''Turkey''), Str (lit ''John Q Doe''), Str (lit ''john''), Str (lit ''q''),
               Str (lit ''doe''), Str (lit ''123 main st''), Str (lit ''lincoln''), Str (lit ''NE''), Str (lit ''00685'')]]\<rparr>"

definition state_env :: env where
  "state_env =
     \<lparr>unicode_db = sample_ud,
      listdir = (\<lambda>d. if d = ''Nebraska'' then Some [''Hunt'', ''Fish'', ''readme.txt'']
                      else if d = ''Nebraska/Hunt'' then Some [''a.txt'', ''b.txt'']
                      else if d = ''Nebraska/Fish'' then Some []
                      else None),
      isfile = (\<lambda>p. p = ''Nebraska/readme.txt'' \<or> p = ''Nebraska/Hunt/a.txt''
                      \<or> p = ''Nebraska/Hunt/b.txt''),
      read_csv = (\<lambda>p. if p = ''Nebraska/Hunt/a.txt'' then Inr ne_plain
                       else if p = ''Nebraska/Hunt/b.txt'' then Inr ne_with_sex
                       else Inl OSError),
      read_excel = (\<lambda>p. Inl OSError),
      other_attribute = (\<lambda>m. AttributeError)\<rparr>"

definition empty_state_env :: env where
  "empty_state_env =
     \<lparr>unicode_db = sample_ud,
      listdir = (\<lambda>d. if d = ''Nebraska'' then Some [''Hunt'']
                      else if d = ''Nebraska/Hunt'' then Some []
                      else None),
      isfile = (\<lambda>p. False),
      read_csv = (\<lambda>p. Inl OSError),
      read_excel = (\<lambda>p. Inl OSError),
      other_attribute = (\<lambda>m. AttributeError)\<rparr>"

text \<open>A file of the standard data columns in which the first two rows are equal, and what
  the finisher makes of it.\<close>

definition twin_frame :: frame where
  "twin_frame =
     \<lparr>columns = [(''FirstName'', Object), (''MiddleName'', Object), (''LastName'', Object),
                 (''Street'', Object), (''City'', Object), (''State'', Object), (''Zip'', Object)],
      rows = [[Str (lit ''ann''), NaN, Str (lit ''lee''), Str (lit ''9 oak st''), Str (lit ''omaha''),
               Str (lit ''NE''), Str (lit ''68102'')],
              [Str (lit ''ann''), NaN, Str (lit ''lee''), Str (lit ''9 oak st''), Str (lit ''omaha''),
               Str (lit ''NE''), Str (lit ''68102'')],
              [Str (lit ''bob''), NaN, Str (lit ''ray''), Str (lit ''7 ash st''), Str (lit ''omaha''),
               Str (lit ''NE''), Str (lit ''68104'')]]\<rparr>"

definition twin_out :: frame where
  "twin_out =
     \<lparr>columns = [(''FirstName'', Object), (''MiddleName'', Object), (''LastName'', Object),
                 (''Suffix'', Numeric), (''Street'', Object), (''City'', Object), (''State'', Object),
                 (''Zip'', Object), (''Hunt'', Object), (''Fish'', Object)],
      rows = [[Str (lit ''Ann''), NaN, Str (lit ''Lee''), NaN, Str (lit ''9 Oak St''), Str (lit ''Omaha''),
               Str (lit ''NE''), Str (lit ''68102''), Str [], Str (lit ''Y'')],
              [Str (lit ''Bob''), NaN, Str (lit ''Ray''), NaN, Str (lit ''7 Ash St''), Str (lit ''Omaha''),
               Str (lit ''NE''), Str (lit ''68104''), Str [], Str (lit ''Y'')]]\<rparr>"

text \<open>A file with a column beyond the standard ones: the first two rows are equal, the
  third differs from them in that column only.\<close>

definition dup_frame :: frame where
  "dup_frame =
     \<lparr>columns = [(''FirstName'', Object), (''MiddleName'', Object), (''LastName'', Object),
                 (''Street'', Object), (''City'', Object), (''State'', Object), (''Zip'', Object),
                 (''Phone'', Object)],
      rows = [[Str (lit ''Ann''), NaN, Str (lit ''Lee''), Str (lit ''9 Oak St''), Str (lit ''Omaha''), Str (lit ''NE''), Str (lit ''68102''),
               Str (lit ''555-0100'')],
              [Str (lit ''Ann''), NaN, Str (lit ''Lee''), Str (lit ''9 Oak St''), Str (lit ''Omaha''), Str (lit ''NE''), Str (lit ''68102''),
               Str (lit ''555-0100'')],
              [Str (lit ''Ann''), NaN, Str (lit ''Lee''), Str (lit ''9 Oak St''), Str (lit ''Omaha''), Str (lit ''NE''), Str (lit ''68102''),
               Str (lit ''555-0199'')]]\<rparr>"

definition dup_out :: frame where
  "dup_out =
     \<lparr>columns = [(''FirstName'', Object), (''MiddleName'', Object), (''LastName'', Object),
                 (''Suffix'', Numeric), (''Street'', Object), (''City'', Object), (''State'', Object),
                 (''Zip'', Object), (''Hunt'', Object), (''Fish'', Object)],
      rows = [[Str (lit ''Ann''), NaN, Str (lit ''Lee''), NaN, Str (lit ''9 Oak St''), Str (lit ''Omaha''), Str (lit ''NE''),
               Str (lit ''68102''), Str [], Str (lit ''Y'')],
              [Str (lit ''Ann''), NaN, Str (lit ''Lee''), NaN, Str (lit ''9 Oak St''), Str (lit ''Omaha''), Str (lit ''NE''),
               Str (lit ''68102''), Str [], Str (lit ''Y'')]]\<rparr>"

text \<open>
  A file with the standard columns only, in which a first name is written in capitals
  with the capital I with dot above (304); the result of the finisher, and the result
  of the finisher on that.
\<close>

definition dotted_frame :: frame where
  "dotted_frame =
     \<lparr>columns = [(''FirstName'', Object), (''MiddleName'', Object), (''LastName'', Object),
                 (''Street'', Object), (''City'', Object), (''State'', Object), (''Zip'', Object)],
      rows = [[Str [68, 69, 77, 304, 82], Str (lit ''A''), Str (lit ''Kaya''), Str (lit ''5 Elm St''),
               Str (lit ''Omaha''), Str (lit ''NE''), Str (lit ''68102'')]]\<rparr>"

definition dotted_out :: frame where
  "dotted_out =
     \<lparr>columns = [(''FirstName'', Object), (''MiddleName'', Object), (''LastName'', Object),
                 (''Suffix'', Numeric), (''Street'', Object), (''City'', Object), (''State'', Object),
                 (''Zip'', Object), (''Hunt'', Object), (''Fish'', Object)],
      rows = [[Str [68, 101, 109, 105, 775, 114], Str (lit ''A''), Str (lit ''Kaya''), NaN,
               Str (lit ''5 Elm St''), Str (lit ''Omaha''), Str (lit ''NE''), Str (lit ''68102''),
               Str (lit ''Y''), Str []]]\<rparr>"

definition dotted_out2 :: frame where
  "dotted_out2 =
     \<lparr>columns = [(''FirstName'', Object), (''MiddleName'', Object), (''LastName'', Object),
                 (''Suffix'', Numeric), (''Street'', Object), (''City'', Object), (''State'', Object),
                 (''Zip'', Object), (''Hunt'', Object), (''Fish'', Object)],
      rows = [[Str [68, 101, 109, 105, 775, 82], Str (lit ''A''), Str (lit ''Kaya''), NaN,
               Str (lit ''5 Elm St''), Str (lit ''Omaha''), Str (lit ''NE''), Str (lit ''68102''),
               Str (lit ''Y''), Str []]]\<rparr>"

section \<open>Facts about the text functions\<close>

lemma zfill_length: "length (zfill w s) = max w (length s)"
  by (auto simp: zfill_def Let_def split: list.splits)

lemma zfill_idem: "zfill w (zfill w s) = zfill w s"
  using zfill_length[of w s] by (simp add: zfill_def[of w "zfill w s"])

lemma last_dropWhile_keep: "dropWhile P xs \<noteq> [] \<Longrightarrow> last (dropWhile P xs) = last xs"
  by (induction xs) (auto split: if_splits)

lemma dropWhile_rev_stripped:
  "rev (dropWhile P (rev (dropWhile P s))) = [] \<or>
   (\<not> P (hd (rev (dropWhile P (rev (dropWhile P s))))) \<and> \<not> P (last (rev (dropWhile P (rev (dropWhile P s))))))"
proof (cases "dropWhile P (rev (dropWhile P s)) = []")
  case True
  then show ?thesis by simp
next
  case False
  let ?t = "dropWhile P s"
  let ?u = "dropWhile P (rev ?t)"
  have u: "\<not> P (hd ?u)" using False by (rule hd_dropWhile)
  have tne: "?t \<noteq> []"
  proof
    assume e: "?t = []"
    show False using False unfolding e by simp
  qed
  have t: "\<not> P (hd ?t)" using tne by (rule hd_dropWhile)
  have "last ?u = last (rev ?t)" using False by (rule last_dropWhile_keep)
  then have "last ?u = hd ?t" using tne by (simp add: last_rev)
  then show ?thesis using u t False by (simp add: hd_rev last_rev)
qed

lemma stripped_strip: "stripped ud (strip ud s)"
  unfolding stripped_def strip_def by (rule dropWhile_rev_stripped)

lemma strip_stripped: "stripped ud s \<Longrightarrow> strip ud s = s"
proof (cases "s = []")
  case True then show ?thesis by (simp add: strip_def)
next
  case False
  assume "stripped ud s"
  then have h: "\<not> is_space ud (hd s)" and l: "\<not> is_space ud (last s)"
    using False by (auto simp: stripped_def)
  have 1: "dropWhile (is_space ud) s = s" using h False by (cases s) auto
  have "dropWhile (is_space ud) (rev s) = rev s"
    using l False by (cases "rev s") (auto simp: last_rev hd_rev)
  then show ?thesis by (simp add: strip_def 1)
qed

lemma strip_idem: "strip ud (strip ud s) = strip ud s"
  by (rule strip_stripped) (rule stripped_strip)

lemma set_strip: "set (strip ud s) \<subseteq> set s"
  unfolding strip_def by (auto dest!: set_dropWhileD)

lemma ascii_strip: "ascii_text s \<Longrightarrow> ascii_text (strip ud s)"
  using set_strip[of ud s] unfolding ascii_text_def by blast

lemma stripped_zfill:
  assumes z: "\<not> is_space ud 48" and st: "stripped ud s"
  shows "stripped ud (zfill w s)"
proof (cases "w \<le> length s")
  case True
  with st show ?thesis by (simp add: zfill_def)
next
  case False
  define n where "n = w - length s - 1"
  have fill: "replicate (w - length s) (48 :: int) = 48 # replicate n 48"
    using False by (simp add: n_def flip: replicate_Suc)
  show ?thesis
  proof (cases s)
    case Nil
    with False z show ?thesis
      by (simp add: zfill_def stripped_def)
  next
    case (Cons c cs)
    have c: "\<not> is_space ud c" using st Cons by (simp add: stripped_def)
    have l: "cs \<noteq> [] \<Longrightarrow> \<not> is_space ud (last cs)" using st Cons by (simp add: stripped_def)
    have lr: "last (48 # replicate n (48 :: int)) = 48"
      by (metis last_replicate replicate_Suc nat.distinct(1))
    show ?thesis
      using False c l lr z unfolding zfill_def Let_def fill Cons stripped_def
      by auto
  qed
qed

lemma ascii_zero: "ascii_tables ud \<Longrightarrow> \<not> is_space ud 48"
  by (simp add: ascii_tables_def ascii_space_def)

lemma do_title_ascii:
  "ascii_tables ud \<Longrightarrow> ascii_text s \<Longrightarrow> do_title ud p before s = ascii_title p s"
  by (induction s arbitrary: p before) (simp_all add: ascii_tables_def ascii_text_def)

lemma title_ascii: "ascii_tables ud \<Longrightarrow> ascii_text s \<Longrightarrow> title ud s = ascii_title False s"
  by (simp add: title_def do_title_ascii)

lemma ascii_upper_idem: "ascii_upper (ascii_upper c) = ascii_upper c"
  by (simp add: ascii_upper_def)

lemma ascii_lower_idem: "ascii_lower (ascii_lower c) = ascii_lower c"
  by (simp add: ascii_lower_def)

lemma ascii_letter_upper: "ascii_letter (ascii_upper c) = ascii_letter c"
  unfolding ascii_letter_def ascii_upper_def by (cases "97 \<le> c \<and> c \<le> 122") auto

lemma ascii_letter_lower: "ascii_letter (ascii_lower c) = ascii_letter c"
  unfolding ascii_letter_def ascii_lower_def by (cases "65 \<le> c \<and> c \<le> 90") auto

lemma ascii_title_idem: "ascii_title p (ascii_title p s) = ascii_title p s"
  by (induction s arbitrary: p)
    (simp_all add: ascii_upper_idem ascii_lower_idem ascii_letter_upper ascii_letter_lower)

lemma ascii_upper_range: "0 \<le> c \<and> c < 128 \<Longrightarrow> 0 \<le> ascii_upper c \<and> ascii_upper c < 128"
  unfolding ascii_upper_def by (cases "97 \<le> c \<and> c \<le> 122") auto

lemma ascii_lower_range: "0 \<le> c \<and> c < 128 \<Longrightarrow> 0 \<le> ascii_lower c \<and> ascii_lower c < 128"
  unfolding ascii_lower_def by (cases "65 \<le> c \<and> c \<le> 90") auto

lemma ascii_space_upper: "ascii_space (ascii_upper c) = ascii_space c"
  unfolding ascii_space_def ascii_upper_def by (cases "97 \<le> c \<and> c \<le> 122") auto

lemma ascii_space_lower: "ascii_space (ascii_lower c) = ascii_space c"
  unfolding ascii_space_def ascii_lower_def by (cases "65 \<le> c \<and> c \<le> 90") auto

lemma ascii_title_text: "ascii_text s \<Longrightarrow> ascii_text (ascii_title p s)"
proof (induction s arbitrary: p)
  case Nil
  then show ?case by simp
next
  case (Cons c cs)
  from Cons.prems have c: "0 \<le> c \<and> c < 128" and cs: "ascii_text cs"
    by (simp_all add: ascii_text_def)
  have t: "\<forall>x \<in> set (ascii_title (ascii_letter c) cs). 0 \<le> x \<and> x < 128"
    using Cons.IH[OF cs] by (simp only: ascii_text_def)
  have h: "0 \<le> (if p then ascii_lower c else ascii_upper c)
         \<and> (if p then ascii_lower c else ascii_upper c) < 128"
    using ascii_upper_range[OF c] ascii_lower_range[OF c] by (cases p) simp_all
  show ?case unfolding ascii_text_def ascii_title.simps set_simps using h t by blast
qed

lemma ascii_title_space: "map ascii_space (ascii_title p s) = map ascii_space s"
  by (induction s arbitrary: p) (simp_all add: ascii_space_upper ascii_space_lower)

lemma ascii_title_length: "length (ascii_title p s) = length s"
  by (induction s arbitrary: p) auto

lemma title_idem_ascii:
  "ascii_tables ud \<Longrightarrow> ascii_text s \<Longrightarrow> title ud (title ud s) = title ud s"
  by (simp add: title_ascii ascii_title_text ascii_title_idem)

lemma stripped_ascii:
  assumes "ascii_tables ud" "ascii_text s"
  shows "stripped ud s = (s = [] \<or> (\<not> hd (map ascii_space s) \<and> \<not> last (map ascii_space s)))"
proof -
  have e: "map (is_space ud) s = map ascii_space s"
    using assms by (auto simp: ascii_tables_def ascii_text_def)
  have "stripped ud s = (s = [] \<or> (\<not> hd (map (is_space ud) s) \<and> \<not> last (map (is_space ud) s)))"
    by (cases s) (auto simp: stripped_def last_map hd_map)
  then show ?thesis unfolding e .
qed

lemma stripped_title_ascii:
  assumes t: "ascii_tables ud" and a: "ascii_text s" and st: "stripped ud s"
  shows "stripped ud (title ud s)"
proof -
  have e: "title ud s = ascii_title False s" using t a by (rule title_ascii)
  have a': "ascii_text (ascii_title False s)" using a by (rule ascii_title_text)
  have n: "(ascii_title False s = []) = (s = [])" using ascii_title_length[of False s] by auto
  show ?thesis
    using st unfolding e stripped_ascii[OF t a'] stripped_ascii[OF t a] ascii_title_space n .
qed

lemma startswith_iff: "startswith s p \<longleftrightarrow> (\<exists>b. s = p @ b)"
  by (induction s p rule: startswith.induct) auto

lemma contains_iff: "contains s sub \<longleftrightarrow> (\<exists>a b. s = a @ sub @ b)"
proof (induction s)
  case Nil
  then show ?case by auto
next
  case (Cons c cs)
  show ?case
  proof
    assume "contains (c # cs) sub"
    then consider "startswith (c # cs) sub" | "contains cs sub" by auto
    then show "\<exists>a b. c # cs = a @ sub @ b"
    proof cases
      case 1
      then obtain b where "c # cs = sub @ b" by (auto simp: startswith_iff)
      then have "c # cs = [] @ sub @ b" by simp
      then show ?thesis by blast
    next
      case 2
      then obtain a b where "cs = a @ sub @ b" using Cons.IH by blast
      then have "c # cs = (c # a) @ sub @ b" by simp
      then show ?thesis by blast
    qed
  next
    assume "\<exists>a b. c # cs = a @ sub @ b"
    then obtain a b where e: "c # cs = a @ sub @ b" by blast
    show "contains (c # cs) sub"
    proof (cases a)
      case Nil
      with e have "startswith (c # cs) sub" by (auto simp: startswith_iff)
      then show ?thesis by simp
    next
      case (Cons x xs)
      with e have "cs = xs @ sub @ b" by simp
      then have "contains cs sub" using Cons.IH by blast
      then show ?thesis by simp
    qed
  qed
qed

section \<open>Facts about frames\<close>

subsection \<open>Dropping duplicates\<close>

lemma set_dedup: "set (dedup xs) = set xs"
  by (induction xs rule: dedup.induct) auto

lemma distinct_dedup: "distinct (dedup xs)"
  by (induction xs rule: dedup.induct) (auto simp: set_dedup)

lemma dedup_distinct: "distinct xs \<Longrightarrow> dedup xs = xs"
proof (induction xs)
  case Nil then show ?case by simp
next
  case (Cons x xs)
  then have "filter (\<lambda>y. y \<noteq> x) xs = xs" by (auto intro: filter_True)
  with Cons show ?case by simp
qed

lemma length_dedup: "length (dedup xs) = card (set xs)"
  using distinct_card[OF distinct_dedup, of xs] by (simp add: set_dedup)

subsection \<open>Rows under a header\<close>

lemma map_label_length: "length (map_label a f ls r) = min (length ls) (length r)"
  by (simp add: map_label_def)

lemma view_map_label:
  "map_of (zip ls (map_label n g ls r)) k
   = map_option (\<lambda>c. if k = n then g c else c) (map_of (zip ls r) k)"
  unfolding map_label_def
proof (induction ls arbitrary: r)
  case Nil then show ?case by simp
next
  case (Cons l ls)
  show ?case by (cases r) (auto simp: Cons.IH)
qed

lemma view_snoc:
  "length r = length ls \<Longrightarrow>
   map_of (zip (ls @ [n]) (r @ [v])) k
   = (case map_of (zip ls r) k of Some c \<Rightarrow> Some c | None \<Rightarrow> if k = n then Some v else None)"
proof -
  assume "length r = length ls"
  then have "zip (ls @ [n]) (r @ [v]) = zip ls r @ [(n, v)]" by simp
  then show ?thesis
    by (cases "map_of (zip ls r) k") (simp_all only: map_of_append map_add_def map_of.simps option.case fst_conv snd_conv fun_upd_apply split: if_splits)
qed

lemma view_None: "k \<notin> set ls \<Longrightarrow> map_of (zip ls r) k = None"
proof -
  assume "k \<notin> set ls"
  then have "k \<notin> fst ` set (zip ls r)" by (auto dest: set_zip_leftD)
  then show ?thesis by (simp add: map_of_eq_None_iff)
qed

lemma view_Some: "length r = length ls \<Longrightarrow> k \<in> set ls \<Longrightarrow> \<exists>c. map_of (zip ls r) k = Some c"
  using map_of_zip_is_Some[of ls r k] by auto

lemma set_cell_length:
  "length r = length ls \<Longrightarrow> length (set_cell n v ls r) = length (set_label n ls)"
  by (simp add: set_cell_def set_label_def map_label_length)

lemma lookup_set_cell:
  assumes "length r = length ls"
  shows "lookup (set_label n ls) (set_cell n v ls r) k = (if k = n then v else lookup ls r k)"
proof (cases "n \<in> set ls")
  case True
  then obtain c where "map_of (zip ls r) n = Some c" using view_Some[OF assms] by blast
  with True show ?thesis
    by (auto simp: lookup_def set_cell_def set_label_def view_map_label split: option.splits)
next
  case False
  then show ?thesis
    using assms by (auto simp: lookup_def set_cell_def set_label_def view_snoc view_None split: option.splits)
qed

lemma lookup_map_label:
  assumes "length r = length ls" "n \<in> set ls"
  shows "lookup ls (map_label n g ls r) k = (if k = n then g (lookup ls r k) else lookup ls r k)"
proof -
  obtain c where "map_of (zip ls r) n = Some c" using view_Some[OF assms] by blast
  then show ?thesis
    by (auto simp: lookup_def view_map_label split: option.splits)
qed

subsection \<open>The steps of the finisher\<close>

lemma common_shape:
  "common ud df PATH = Inr out \<Longrightarrow>
   labels out = std_columns \<and> (\<forall>r \<in> set (rows out). length r = 10)"
  by (auto simp: common_def reindex_def Let_def labels_def std_columns_def comp_def
      split: sum.splits if_splits)

lemma strip_strings_rows:
  "strip_strings ud df = Inr df1 \<Longrightarrow>
   columns df1 = columns df \<and>
   rows df1 = map (map2 (\<lambda>h c. if snd h = Object then str_map (strip ud) c else c) (columns df)) (rows df)"
  by (auto simp: strip_strings_def case_prod_unfold split: if_splits)

lemma positions_single:
  "positions name df = [i] \<Longrightarrow> i < length (columns df) \<and> fst (columns df ! i) = name"
proof -
  assume "positions name df = [i]"
  then have "i \<in> set (positions name df)" by simp
  then show ?thesis by (simp add: positions_def)
qed

lemma str_assign_rows:
  "str_assign name f df = Inr df' \<Longrightarrow>
   columns df' = columns df \<and>
   rows df' = map (map_label name (str_map f) (labels df)) (rows df) \<and>
   (name, Object) \<in> set (columns df)"
proof -
  assume a: "str_assign name f df = Inr df'"
  then obtain i where p: "positions name df = [i]"
    and acc: "str_accessible (snd (columns df ! i)) (column_at i df)"
    and d: "df' = df\<lparr>rows := map (map_label name (str_map f) (labels df)) (rows df)\<rparr>"
    by (auto simp: str_assign_def split: list.splits if_splits)
  have i: "i < length (columns df)" "fst (columns df ! i) = name"
    using positions_single[OF p] by auto
  have "snd (columns df ! i) = Object" using acc by (simp add: str_accessible_def)
  then have "columns df ! i = (name, Object)" using i by (simp add: prod_eq_iff)
  then have "(name, Object) \<in> set (columns df)" using i(1) by (metis nth_mem)
  then show ?thesis using d by simp
qed

lemma clean_steps:
  assumes "strip_strings ud df = Inr df1"
    and "str_assign ''Zip'' (zfill 5) df1 = Inr df2"
    and "title_columns ud to_title df2 = Inr df3"
  shows "columns df3 = columns df \<and> rows df3 = map (clean_row ud (columns df)) (rows df)
         \<and> (\<forall>n \<in> set (''Zip'' # to_title). (n, Object) \<in> set (columns df))"
proof -
  note s1 = strip_strings_rows[OF assms(1)]
  note s2 = str_assign_rows[OF assms(2)]
  from assms(3) obtain a b c d where
    t1: "str_assign ''FirstName'' (title ud) df2 = Inr a" and
    t2: "str_assign ''MiddleName'' (title ud) a = Inr b" and
    t3: "str_assign ''LastName'' (title ud) b = Inr c" and
    t4: "str_assign ''Street'' (title ud) c = Inr d" and
    t5: "str_assign ''City'' (title ud) d = Inr df3"
    by (auto simp: to_title_def split: sum.splits)
  note r1 = str_assign_rows[OF t1] and r2 = str_assign_rows[OF t2] and r3 = str_assign_rows[OF t3]
    and r4 = str_assign_rows[OF t4] and r5 = str_assign_rows[OF t5]
  have cols: "columns df3 = columns df" "columns d = columns df" "columns c = columns df"
    "columns b = columns df" "columns a = columns df" "columns df2 = columns df" "columns df1 = columns df"
    using s1 s2 r1 r2 r3 r4 r5 by simp_all
  have lab: "labels d = map fst (columns df)" "labels c = map fst (columns df)" "labels b = map fst (columns df)"
    "labels a = map fst (columns df)" "labels df2 = map fst (columns df)" "labels df1 = map fst (columns df)"
    using cols by (simp_all add: labels_def)
  have mem: "\<forall>n \<in> set (''Zip'' # to_title). (n, Object) \<in> set (columns df)"
    using s2 r1 r2 r3 r4 r5 cols by (simp add: to_title_def)
  have rows3: "rows df3 = map (\<lambda>r. map_label ''City'' (str_map (title ud)) (map fst (columns df))
      (map_label ''Street'' (str_map (title ud)) (map fst (columns df))
      (map_label ''LastName'' (str_map (title ud)) (map fst (columns df))
      (map_label ''MiddleName'' (str_map (title ud)) (map fst (columns df))
      (map_label ''FirstName'' (str_map (title ud)) (map fst (columns df))
      (map_label ''Zip'' (str_map (zfill 5)) (map fst (columns df))
      (map2 (\<lambda>h c. if snd h = Object then str_map (strip ud) c else c) (columns df) r))))))) (rows df)"
    using s1 s2 r1 r2 r3 r4 r5 by (simp add: lab comp_def)
  have row: "map_label ''City'' (str_map (title ud)) (map fst hdr)
      (map_label ''Street'' (str_map (title ud)) (map fst hdr)
      (map_label ''LastName'' (str_map (title ud)) (map fst hdr)
      (map_label ''MiddleName'' (str_map (title ud)) (map fst hdr)
      (map_label ''FirstName'' (str_map (title ud)) (map fst hdr)
      (map_label ''Zip'' (str_map (zfill 5)) (map fst hdr)
      (map2 (\<lambda>h c. if snd h = Object then str_map (strip ud) c else c) hdr r)))))) = clean_row ud hdr r" for hdr r
  proof (induction hdr arbitrary: r)
    case Nil
    then show ?case by (simp add: map_label_def clean_row_def)
  next
    case (Cons h hdr)
    show ?case
    proof (cases r)
      case Nil
      then show ?thesis by (simp add: map_label_def clean_row_def)
    next
      case (Cons x xs)
      have tl: "clean_row ud (h # hdr) (x # xs) = clean_cell ud h x # clean_row ud hdr xs"
        by (simp add: clean_row_def)
      show ?thesis unfolding Cons tl Cons.IH[symmetric]
        by (simp add: map_label_def clean_cell_def to_title_def Let_def)
    qed
  qed
  show ?thesis using cols(1) rows3 mem by (simp add: row)
qed

lemma labels_assign_scalar: "labels (assign_scalar n v df) = set_label n (labels df)"
  by (auto simp: assign_scalar_def set_label_def labels_def case_prod_unfold comp_def intro!: map_idI)

lemma rows_assign_scalar: "rows (assign_scalar n v df) = map (set_cell n v (labels df)) (rows df)"
  by (auto simp: assign_scalar_def set_cell_def)

lemma dtype_assign_scalar:
  "map_of (columns (assign_scalar n v df)) l = (if l = n then Some Object else map_of (columns df) l)"
proof (cases "n \<in> set (labels df)")
  case True
  have "map_of (map (\<lambda>(l, dt). if l = n then (l, Object) else (l, dt)) cs) l
        = (if l = n then (if n \<in> fst ` set cs then Some Object else None) else map_of cs l)" for cs
    by (induction cs) (auto simp: case_prod_unfold rev_image_eqI)
  with True show ?thesis by (simp add: assign_scalar_def labels_def)
next
  case False
  then have "map_of (columns df) n = None" by (simp add: labels_def map_of_eq_None_iff)
  with False show ?thesis by (auto simp: assign_scalar_def map_of_append map_add_def split: option.splits)
qed

lemma distinct_set_label: "distinct (set_label n ls) = distinct ls"
  by (simp add: set_label_def)

lemma mem_set_label: "n \<in> set (set_label n ls)" "k \<in> set ls \<Longrightarrow> k \<in> set (set_label n ls)"
  by (simp_all add: set_label_def)

lemma tag_row:
  assumes len: "length r = length ls"
  shows "map (lookup (set_label ''Fish'' (set_label ''Hunt'' ls))
            (map_label ''Fish'' (\<lambda>x. if contains PATH ''Fish'' then Str (lit ''Y'') else x) (set_label ''Fish'' (set_label ''Hunt'' ls))
            (map_label ''Hunt'' (\<lambda>x. if contains PATH ''Hunt'' then Str (lit ''Y'') else x) (set_label ''Fish'' (set_label ''Hunt'' ls))
            (set_cell ''Fish'' (Str []) (set_label ''Hunt'' ls) (set_cell ''Hunt'' (Str []) ls r)))))
          std_columns
         = finish_row ls PATH r"
proof -
  let ?l5 = "set_label ''Hunt'' ls" and ?r5 = "set_cell ''Hunt'' (Str []) ls r"
  let ?l6 = "set_label ''Fish'' ?l5" and ?r6 = "set_cell ''Fish'' (Str []) ?l5 ?r5"
  let ?r7 = "map_label ''Hunt'' (\<lambda>x. if contains PATH ''Hunt'' then Str (lit ''Y'') else x) ?l6 ?r6"
  let ?r8 = "map_label ''Fish'' (\<lambda>x. if contains PATH ''Fish'' then Str (lit ''Y'') else x) ?l6 ?r7"
  have l5: "length ?r5 = length ?l5" using len by (rule set_cell_length)
  have l6: "length ?r6 = length ?l6" using l5 by (rule set_cell_length)
  have l7: "length ?r7 = length ?l6" using l6 by (simp add: map_label_length)
  have h: "''Hunt'' \<in> set ?l6" and f: "''Fish'' \<in> set ?l6" by (simp_all add: mem_set_label)
  have "lookup ?l6 ?r8 k = (if k = ''Hunt'' then tag PATH ''Hunt''
          else if k = ''Fish'' then tag PATH ''Fish'' else lookup ls r k)" for k
    unfolding lookup_map_label[OF l7 f] lookup_map_label[OF l6 h]
      lookup_set_cell[OF l5] lookup_set_cell[OF len]
    by (simp add: tag_def)
  then show ?thesis by (simp add: finish_row_def)
qed

lemma tag_steps:
  assumes wf: "wf_frame df4"
  shows "reindex std_columns
           (apply_assign ''Fish'' (\<lambda>x. if contains PATH ''Fish'' then Str (lit ''Y'') else x)
           (apply_assign ''Hunt'' (\<lambda>x. if contains PATH ''Hunt'' then Str (lit ''Y'') else x)
           (assign_scalar ''Fish'' (Str [])
           (assign_scalar ''Hunt'' (Str []) df4))))
         = (if distinct (labels df4)
            then Inr \<lparr>columns = out_columns (columns df4),
                      rows = map (finish_row (labels df4) PATH) (rows df4)\<rparr>
            else Inl ValueError)"
proof -
  let ?d5 = "assign_scalar ''Hunt'' (Str []) df4"
  let ?d6 = "assign_scalar ''Fish'' (Str []) ?d5"
  let ?d7 = "apply_assign ''Hunt'' (\<lambda>x. if contains PATH ''Hunt'' then Str (lit ''Y'') else x) ?d6"
  let ?d8 = "apply_assign ''Fish'' (\<lambda>x. if contains PATH ''Fish'' then Str (lit ''Y'') else x) ?d7"
  let ?ls = "labels df4"
  have lab8: "labels ?d8 = set_label ''Fish'' (set_label ''Hunt'' ?ls)"
    by (simp add: apply_assign_def labels_assign_scalar labels_def[of "_\<lparr>rows := _\<rparr>"]
        flip: labels_def)
  have cols8: "columns ?d8 = columns ?d6" by (simp add: apply_assign_def)
  have rows8: "rows ?d8 = map (\<lambda>r. map_label ''Fish'' (\<lambda>x. if contains PATH ''Fish'' then Str (lit ''Y'') else x) (set_label ''Fish'' (set_label ''Hunt'' ?ls))
            (map_label ''Hunt'' (\<lambda>x. if contains PATH ''Hunt'' then Str (lit ''Y'') else x) (set_label ''Fish'' (set_label ''Hunt'' ?ls))
            (set_cell ''Fish'' (Str []) (set_label ''Hunt'' ?ls) (set_cell ''Hunt'' (Str []) ?ls r)))) (rows df4)"
    by (simp add: apply_assign_def labels_assign_scalar rows_assign_scalar labels_def[of "_\<lparr>rows := _\<rparr>"] comp_def
        flip: labels_def)
  have dt: "map (\<lambda>l. (l, case map_of (columns ?d8) l of Some dt \<Rightarrow> dt | None \<Rightarrow> Numeric)) std_columns
            = out_columns (columns df4)"
    unfolding cols8 out_columns_def dtype_assign_scalar by (simp add: std_columns_def)
  have rw: "map (\<lambda>r. map (lookup (labels ?d8) r) std_columns) (rows ?d8)
            = map (finish_row ?ls PATH) (rows df4)"
    unfolding lab8 rows8 map_map comp_def
  proof (rule map_cong[OF refl])
    fix r assume "r \<in> set (rows df4)"
    then have "length r = length ?ls" using wf by (simp add: wf_frame_def labels_def)
    then show "map (lookup (set_label ''Fish'' (set_label ''Hunt'' ?ls))
            (map_label ''Fish'' (\<lambda>x. if contains PATH ''Fish'' then Str (lit ''Y'') else x) (set_label ''Fish'' (set_label ''Hunt'' ?ls))
            (map_label ''Hunt'' (\<lambda>x. if contains PATH ''Hunt'' then Str (lit ''Y'') else x) (set_label ''Fish'' (set_label ''Hunt'' ?ls))
            (set_cell ''Fish'' (Str []) (set_label ''Hunt'' ?ls) (set_cell ''Hunt'' (Str []) ?ls r)))))
          std_columns = finish_row ?ls PATH r" by (rule tag_row)
  qed
  have di: "distinct (labels ?d8) = distinct ?ls" unfolding lab8 by (simp add: distinct_set_label)
  show ?thesis unfolding reindex_def di dt rw by simp
qed

lemma clean_row_length: "length r = length hdr \<Longrightarrow> length (clean_row ud hdr r) = length hdr"
  by (simp add: clean_row_def)

lemma common_rows:
  assumes wf: "wf_frame df" and c: "common ud df PATH = Inr out"
  shows "columns out = out_columns (columns df)"
    and "rows out = map (finish_row (labels df) PATH) (dedup (map (clean_row ud (columns df)) (rows df)))"
    and "distinct (labels df)"
    and "\<forall>n \<in> set (''Zip'' # to_title). (n, Object) \<in> set (columns df)"
proof -
  from c obtain df1 df2 df3 where
    s1: "strip_strings ud df = Inr df1" and
    s2: "str_assign ''Zip'' (zfill 5) df1 = Inr df2" and
    s3: "title_columns ud to_title df2 = Inr df3" and
    r: "reindex std_columns
           (apply_assign ''Fish'' (\<lambda>x. if contains PATH ''Fish'' then Str (lit ''Y'') else x)
           (apply_assign ''Hunt'' (\<lambda>x. if contains PATH ''Hunt'' then Str (lit ''Y'') else x)
           (assign_scalar ''Fish'' (Str [])
           (assign_scalar ''Hunt'' (Str []) (drop_duplicates df3))))) = Inr out"
    by (auto simp: common_def Let_def split: sum.splits)
  note cs = clean_steps[OF s1 s2 s3]
  let ?d4 = "drop_duplicates df3"
  have c4: "columns ?d4 = columns df" using cs by (simp add: drop_duplicates_def)
  have r4: "rows ?d4 = dedup (map (clean_row ud (columns df)) (rows df))"
    using cs by (auto simp: drop_duplicates_def)
  have wf4: "wf_frame ?d4"
    using wf unfolding wf_frame_def c4 r4 set_dedup by (auto simp: clean_row_length)
  have l4: "labels ?d4 = labels df" using c4 by (simp add: labels_def)
  from r show "columns out = out_columns (columns df)"
    and "rows out = map (finish_row (labels df) PATH) (dedup (map (clean_row ud (columns df)) (rows df)))"
    and "distinct (labels df)"
    unfolding tag_steps[OF wf4] l4 c4 r4 by (auto split: if_splits)
  show "\<forall>n \<in> set (''Zip'' # to_title). (n, Object) \<in> set (columns df)" using cs by simp
qed

subsection \<open>When the finisher succeeds\<close>

lemma filter_upt_single:
  "(\<forall>j<m. P j = (j = i)) \<Longrightarrow> filter P [0..<m] = (if i < m then [i] else [])"
  by (induction m) auto

lemma positions_distinct:
  assumes d: "distinct (labels df)" and m: "(n, dt) \<in> set (columns df)"
  shows "\<exists>i. positions n df = [i] \<and> i < length (columns df) \<and> columns df ! i = (n, dt)"
proof -
  from m obtain i where i: "i < length (columns df)" "columns df ! i = (n, dt)"
    by (auto simp: in_set_conv_nth)
  have "fst (columns df ! j) = n \<longleftrightarrow> j = i" if "j < length (columns df)" for j
  proof
    assume "fst (columns df ! j) = n"
    then have e: "map fst (columns df) ! j = map fst (columns df) ! i" using that i by simp
    have d': "distinct (map fst (columns df))" using d by (simp add: labels_def)
    have "j < length (map fst (columns df))" "i < length (map fst (columns df))" using that i by simp_all
    from nth_eq_iff_index_eq[OF d' this] e show "j = i" by simp
  next
    assume "j = i" then show "fst (columns df ! j) = n" using i by simp
  qed
  then have "positions n df = [i]" unfolding positions_def using i(1)
    by (simp add: filter_upt_single[where i=i])
  then show ?thesis using i by blast
qed

lemma accessible_texty:
  assumes wf: "wf_frame df" and t: "texty df" and i: "i < length (columns df)"
    and o: "snd (columns df ! i) = Object"
  shows "str_accessible Object (column_at i df)"
proof -
  have "is_Str (r ! i) \<or> r ! i = NaN" if "r \<in> set (rows df)" for r
  proof -
    have len: "length r = length (columns df)" using wf that by (simp add: wf_frame_def)
    then have "(columns df ! i, r ! i) \<in> set (zip (columns df) r)"
      using i by (auto simp: in_set_zip)
    then show ?thesis using t that o by (auto simp: texty_def)
  qed
  then show ?thesis by (auto simp: str_accessible_def column_at_def)
qed

lemma strip_check_texty: "wf_frame df \<Longrightarrow> texty df \<Longrightarrow> strip_check df"
  by (auto simp: strip_check_def accessible_texty)

lemma str_map_texty: "is_Str (str_map f c) \<or> str_map f c = NaN"
  by (cases c) auto

lemma zip_map2_set:
  "(h, c') \<in> set (zip hdr (map2 G hdr r)) \<Longrightarrow> \<exists>c. (h, c) \<in> set (zip hdr r) \<and> c' = G h c"
proof (induction hdr arbitrary: r)
  case Nil then show ?case by simp
next
  case (Cons a hdr)
  then show ?case by (cases r) auto
qed

lemma strip_strings_ok:
  assumes "strip_check df"
  shows "strip_strings ud df = Inr (df\<lparr>rows := map (map2 (\<lambda>h c. if snd h = Object then str_map (strip ud) c else c) (columns df)) (rows df)\<rparr>)"
  using assms by (simp add: strip_strings_def strip_check_def case_prod_unfold)

lemma map_label_as_map2:
  "map_label n g (map fst hdr) r = map2 (\<lambda>h c. if fst h = n then g c else c) hdr r"
  unfolding map_label_def
proof (induction hdr arbitrary: r)
  case Nil then show ?case by simp
next
  case (Cons a hdr)
  show ?case by (cases r) (simp_all add: Cons.IH)
qed

lemma texty_map2:
  assumes "\<And>h c. snd h = Object \<Longrightarrow> is_Str c \<or> c = NaN \<Longrightarrow> is_Str (G h c) \<or> G h c = NaN"
    and "texty df"
  shows "texty (df\<lparr>rows := map (map2 G (columns df)) (rows df)\<rparr>)"
  using assms unfolding texty_def by (fastforce dest!: zip_map2_set)

lemma wf_map2: "wf_frame df \<Longrightarrow> wf_frame (df\<lparr>rows := map (map2 G (columns df)) (rows df)\<rparr>)"
  by (auto simp: wf_frame_def)

lemma str_assign_ok:
  assumes wf: "wf_frame df" and t: "texty df" and d: "distinct (labels df)"
    and m: "(n, Object) \<in> set (columns df)"
  shows "str_assign n f df = Inr (df\<lparr>rows := map (map2 (\<lambda>h c. if fst h = n then str_map f c else c) (columns df)) (rows df)\<rparr>)"
proof -
  from positions_distinct[OF d m] obtain i where
    i: "positions n df = [i]" "i < length (columns df)" "columns df ! i = (n, Object)" by blast
  have "str_accessible (snd (columns df ! i)) (column_at i df)"
    using accessible_texty[OF wf t i(2)] i(3) by simp
  then show ?thesis using i(1) by (simp add: str_assign_def labels_def map_label_as_map2)
qed

lemma view_map2:
  "map_of (zip (map fst hdr) (map2 G hdr r)) k
   = (case map_of hdr k of None \<Rightarrow> None
      | Some dt \<Rightarrow> map_option (G (k, dt)) (map_of (zip (map fst hdr) r) k))"
proof (induction hdr arbitrary: r)
  case Nil then show ?case by simp
next
  case (Cons h hdr)
  show ?case
  proof (cases r)
    case Nil
    then show ?thesis by (simp split: option.splits)
  next
    case (Cons c cs)
    then show ?thesis using Cons.IH[of cs] by (cases h) (simp split: option.splits)
  qed
qed

lemma lookup_clean_row:
  assumes "map_of hdr k = Some dt"
  shows "lookup (map fst hdr) (clean_row ud hdr r) k
         = (case map_of (zip (map fst hdr) r) k of None \<Rightarrow> NaN | Some c \<Rightarrow> clean_cell ud (k, dt) c)"
  using assms by (simp add: lookup_def clean_row_def view_map2 split: option.splits)

lemma common_absent_column:
  assumes c: "common ud df PATH = Inr out" and k: "k \<notin> set (labels df)" "k \<noteq> ''Hunt''" "k \<noteq> ''Fish''"
  shows "\<forall>r \<in> set (rows out). map_of (zip std_columns r) k = None \<or> map_of (zip std_columns r) k = Some NaN"
    and "map_of (columns out) k = None \<or> map_of (columns out) k = Some Numeric"
proof -
  from c obtain df1 df2 df3 where
    s1: "strip_strings ud df = Inr df1" and
    s2: "str_assign ''Zip'' (zfill 5) df1 = Inr df2" and
    s3: "title_columns ud to_title df2 = Inr df3" and
    r: "reindex std_columns
           (apply_assign ''Fish'' (\<lambda>x. if contains PATH ''Fish'' then Str (lit ''Y'') else x)
           (apply_assign ''Hunt'' (\<lambda>x. if contains PATH ''Hunt'' then Str (lit ''Y'') else x)
           (assign_scalar ''Fish'' (Str [])
           (assign_scalar ''Hunt'' (Str []) (drop_duplicates df3))))) = Inr out"
    by (auto simp: common_def Let_def split: sum.splits)
  let ?d8 = "apply_assign ''Fish'' (\<lambda>x. if contains PATH ''Fish'' then Str (lit ''Y'') else x)
           (apply_assign ''Hunt'' (\<lambda>x. if contains PATH ''Hunt'' then Str (lit ''Y'') else x)
           (assign_scalar ''Fish'' (Str [])
           (assign_scalar ''Hunt'' (Str []) (drop_duplicates df3))))"
  have c3: "columns df3 = columns df" using clean_steps[OF s1 s2 s3] by simp
  have l4: "labels (drop_duplicates df3) = labels df"
    using c3 by (simp add: drop_duplicates_def labels_def)
  have l8: "labels ?d8 = set_label ''Fish'' (set_label ''Hunt'' (labels df))"
    by (simp add: apply_assign_def labels_assign_scalar l4 labels_def[of "_\<lparr>rows := _\<rparr>"]
        flip: labels_def)
  have k8: "k \<notin> set (labels ?d8)" unfolding l8 using k by (simp add: set_label_def)
  then have dt: "map_of (columns ?d8) k = None" by (simp add: labels_def map_of_eq_None_iff)
  have lk: "lookup (labels ?d8) r k = NaN" for r
    unfolding lookup_def view_None[OF k8] by simp
  from r have o: "out = \<lparr>columns = map (\<lambda>l. (l, case map_of (columns ?d8) l of Some dt \<Rightarrow> dt | None \<Rightarrow> Numeric)) std_columns,
                rows = map (\<lambda>r. map (lookup (labels ?d8) r) std_columns) (rows ?d8)\<rparr>"
    by (simp add: reindex_def split: if_splits)
  have m: "map_of (zip xs (map f xs)) k = (if k \<in> set xs then Some (f k) else None)" for f :: "string \<Rightarrow> cell" and xs
    by (induction xs) auto
  show "\<forall>r \<in> set (rows out). map_of (zip std_columns r) k = None \<or> map_of (zip std_columns r) k = Some NaN"
    unfolding o by (auto simp: m lk)
  have m2: "map_of (map (\<lambda>l. (l, g l)) xs) k = (if k \<in> set xs then Some (g k) else None)" for g :: "string \<Rightarrow> dtype" and xs
    by (induction xs) auto
  show "map_of (columns out) k = None \<or> map_of (columns out) k = Some Numeric"
    unfolding o by (simp add: m2 dt)
qed

lemma set_columns_labels: "set_columns names df = Inr df' \<Longrightarrow> labels df' = names"
  by (auto simp: set_columns_def labels_def split: if_splits)

lemma clean_cell_zip: "clean_cell ud (''Zip'', Object) c = str_map (zfill 5) (str_map (strip ud) c)"
  by (simp add: clean_cell_def to_title_def)

lemma texty_strip:
  "texty (df\<lparr>rows := map (map2 (\<lambda>h c. if snd h = Object then str_map (strip ud) c else c) (columns df)) (rows df)\<rparr>)"
  unfolding texty_def using str_map_texty by (fastforce dest!: zip_map2_set)

lemma str_assign_keeps:
  assumes wf: "wf_frame df" and t: "texty df" and d: "distinct (labels df)"
    and m: "(n, Object) \<in> set (columns df)"
  shows "\<exists>df'. str_assign n f df = Inr df' \<and> wf_frame df' \<and> texty df' \<and> columns df' = columns df"
proof -
  let ?G = "\<lambda>h c. if fst h = n then str_map f c else c"
  let ?d = "df\<lparr>rows := map (map2 ?G (columns df)) (rows df)\<rparr>"
  have "str_assign n f df = Inr ?d" using str_assign_ok[OF assms] .
  moreover have "wf_frame ?d" using wf by (rule wf_map2)
  moreover have "texty ?d" using _ t
  proof (rule texty_map2)
    fix h :: "string \<times> dtype" and c
    show "is_Str (?G h c) \<or> ?G h c = NaN" if "is_Str c \<or> c = NaN"
      using that str_map_texty by auto
  qed
  ultimately show ?thesis by auto
qed

lemma title_columns_keeps:
  assumes "wf_frame df" "texty df" "distinct (labels df)" "\<forall>n \<in> set ns. (n, Object) \<in> set (columns df)"
  shows "\<exists>df'. title_columns ud ns df = Inr df'"
  using assms
proof (induction ns arbitrary: df)
  case Nil
  then show ?case by simp
next
  case (Cons n ns)
  from Cons.prems have "(n, Object) \<in> set (columns df)" by simp
  from str_assign_keeps[OF Cons.prems(1,2,3) this, of "title ud"] obtain d1 where
    d1: "str_assign n (title ud) df = Inr d1" "wf_frame d1" "texty d1" "columns d1 = columns df" by blast
  have "distinct (labels d1)" "\<forall>n \<in> set ns. (n, Object) \<in> set (columns d1)"
    using d1(4) Cons.prems by (simp_all add: labels_def)
  from Cons.IH[OF d1(2,3) this] d1(1) show ?case by simp
qed

lemma common_ok:
  assumes wf: "wf_frame df" and sc: "strip_check df" and d: "distinct (labels df)"
    and m: "\<forall>n \<in> set (''Zip'' # to_title). (n, Object) \<in> set (columns df)"
  shows "common ud df PATH = Inr \<lparr>columns = out_columns (columns df),
           rows = map (finish_row (labels df) PATH) (dedup (map (clean_row ud (columns df)) (rows df)))\<rparr>"
proof -
  let ?d1 = "df\<lparr>rows := map (map2 (\<lambda>h c. if snd h = Object then str_map (strip ud) c else c) (columns df)) (rows df)\<rparr>"
  have s1: "strip_strings ud df = Inr ?d1" using sc by (rule strip_strings_ok)
  have wf1: "wf_frame ?d1" using wf by (rule wf_map2)
  have t1: "texty ?d1" by (rule texty_strip)
  have d1: "distinct (labels ?d1)" using d by (simp add: labels_def)
  have "(''Zip'', Object) \<in> set (columns ?d1)" using m by simp
  from str_assign_keeps[OF wf1 t1 d1 this, of "zfill 5"] obtain df2 where
    s2: "str_assign ''Zip'' (zfill 5) ?d1 = Inr df2" and k2: "wf_frame df2" "texty df2" "columns df2 = columns ?d1"
    by blast
  have "distinct (labels df2)" "\<forall>n \<in> set to_title. (n, Object) \<in> set (columns df2)"
    using k2(3) d m by (simp_all add: labels_def)
  from title_columns_keeps[OF k2(1,2) this] obtain df3 where
    s3: "title_columns ud to_title df2 = Inr df3" by blast
  note cs = clean_steps[OF s1 s2 s3]
  let ?d4 = "drop_duplicates df3"
  have ne: "columns df \<noteq> []" using m by auto
  have c4: "columns ?d4 = columns df" using cs by (simp add: drop_duplicates_def)
  have r4: "rows ?d4 = dedup (map (clean_row ud (columns df)) (rows df))"
    using cs by (auto simp: drop_duplicates_def)
  have wf4: "wf_frame ?d4"
    using wf unfolding wf_frame_def c4 r4 set_dedup by (auto simp: clean_row_length)
  have l4: "labels ?d4 = labels df" using c4 by (simp add: labels_def)
  show ?thesis
    unfolding common_def s1 s2 s3 sum.case Let_def tag_steps[OF wf4] l4 c4 r4 using d by simp
qed

subsection \<open>The Nebraska transform\<close>

lemma drop_columns_labels:
  "drop_columns names df = Inr df' \<Longrightarrow> labels df' = filter (\<lambda>l. l \<notin> set names) (labels df)"
  by (auto simp: drop_columns_def labels_def filter_map comp_def case_prod_unfold split: list.splits)

lemma drop_columns_missing:
  "n \<in> set names \<Longrightarrow> n \<notin> set (labels df) \<Longrightarrow> \<exists>ns. drop_columns names df = Inl (KeyError ns)"
proof -
  assume "n \<in> set names" "n \<notin> set (labels df)"
  then have "n \<in> set (filter (\<lambda>n. n \<notin> set (labels df)) names)" by simp
  then show ?thesis by (cases "filter (\<lambda>n. n \<notin> set (labels df)) names") (auto simp: drop_columns_def)
qed

lemma drop_columns_present:
  "set names \<subseteq> set (labels df) \<Longrightarrow>
   drop_columns names df =
     Inr \<lparr>columns = filter (\<lambda>(l, dt). l \<notin> set names) (columns df),
          rows = map (\<lambda>r. map snd (filter (\<lambda>(l, c). l \<notin> set names) (zip (labels df) r))) (rows df)\<rparr>"
proof -
  assume "set names \<subseteq> set (labels df)"
  then have "filter (\<lambda>n. n \<notin> set (labels df)) names = []" by (auto simp: filter_empty_conv)
  then show ?thesis by (simp add: drop_columns_def)
qed

lemma length_filter_row:
  "length r = length cs \<Longrightarrow>
   length (map snd (filter (\<lambda>(l, c). P l) (zip (map fst cs) r))) = length (filter (\<lambda>(l, dt). P l) cs)"
  by (induction r cs rule: list_induct2) (auto simp: case_prod_unfold)

lemma set_filter_row:
  "set (map snd (filter (\<lambda>(l, c). P l) (zip ls r))) \<subseteq> set r"
  by (auto dest: set_zip_rightD)

lemma csv_frame_drop:
  assumes c: "csv_frame df" and d: "drop_columns names df = Inr df'"
  shows "csv_frame df'"
proof -
  from d have "filter (\<lambda>n. n \<notin> set (labels df)) names = []"
    by (auto simp: drop_columns_def split: list.splits)
  then have "set names \<subseteq> set (labels df)" by (auto simp: filter_empty_conv)
  from drop_columns_present[OF this] d have
    df': "df' = \<lparr>columns = filter (\<lambda>(l, dt). l \<notin> set names) (columns df),
          rows = map (\<lambda>r. map snd (filter (\<lambda>(l, c). l \<notin> set names) (zip (labels df) r))) (rows df)\<rparr>"
    by simp
  have wf: "wf_frame df'" using c unfolding df' csv_frame_def wf_frame_def labels_def
    by (auto simp: length_filter_row simp del: length_map length_filter_conv_card)
  have di: "distinct (labels df')" using c unfolding drop_columns_labels[OF d] csv_frame_def
    by simp
  have ob: "\<forall>h \<in> set (columns df'). snd h = Object" using c unfolding df' csv_frame_def by auto
  have ce: "\<forall>r \<in> set (rows df'). \<forall>c \<in> set r. is_Str c \<or> c = NaN"
    using c set_filter_row unfolding df' csv_frame_def by fastforce
  show ?thesis using wf di ob ce by (simp add: csv_frame_def)
qed

lemma rename_columns: "columns (rename ne_names df) = map (\<lambda>h. (ne_label (fst h), snd h)) (columns df)"
  by (simp add: rename_def ne_label_def case_prod_unfold)

lemma rename_rows: "rows (rename m df) = rows df"
  by (simp add: rename_def)

lemma ne_label_inj:
  assumes "snd ` set ne_names \<inter> A = {}"
  shows "inj_on ne_label A"
proof (rule inj_onI)
  fix x y assume x: "x \<in> A" and y: "y \<in> A" and e: "ne_label x = ne_label y"
  have nx: "x \<notin> snd ` set ne_names" and ny: "y \<notin> snd ` set ne_names" using assms x y by auto
  have tx: "map_of ne_names x = None \<or> ne_label x \<in> snd ` set ne_names" for x
    by (auto simp: ne_label_def ne_names_def)
  have inj: "map_of ne_names a = Some v \<Longrightarrow> map_of ne_names b = Some v \<Longrightarrow> a = b" for a b v
    by (auto simp: ne_names_def split: if_splits)
  show "x = y"
  proof (cases "map_of ne_names x")
    case None
    then have lx: "ne_label x = x" by (simp add: ne_label_def)
    show ?thesis
    proof (cases "map_of ne_names y")
      case None
      then show ?thesis using lx e by (simp add: ne_label_def)
    next
      case (Some v)
      then have "ne_label y \<in> snd ` set ne_names" using tx[of y] by simp
      then show ?thesis using lx e nx by simp
    qed
  next
    case (Some v)
    then have lx: "ne_label x = v" by (simp add: ne_label_def)
    show ?thesis
    proof (cases "map_of ne_names y")
      case None
      then have "ne_label y = y" by (simp add: ne_label_def)
      moreover have "ne_label x \<in> snd ` set ne_names" using tx[of x] Some by simp
      ultimately show ?thesis using e ny by simp
    next
      case (Some w)
      then have "ne_label y = w" by (simp add: ne_label_def)
      then show ?thesis using inj[of x v y] \<open>map_of ne_names x = Some v\<close> Some lx e by simp
    qed
  qed
qed

lemma optional_drop:
  assumes c: "csv_frame df"
  shows "\<exists>df1. (if n \<in> set (labels df) then drop_columns [n] df else Inr df) = Inr df1
           \<and> csv_frame df1 \<and> labels df1 = filter (\<lambda>l. l \<noteq> n) (labels df)"
proof (cases "n \<in> set (labels df)")
  case True
  then have "set [n] \<subseteq> set (labels df)" by simp
  from drop_columns_present[OF this] obtain df1 where d: "drop_columns [n] df = Inr df1" by blast
  from csv_frame_drop[OF c d] drop_columns_labels[OF d] d True show ?thesis by simp
next
  case False
  then have "filter (\<lambda>l. l \<noteq> n) (labels df) = labels df" by (auto intro: filter_True)
  with False c show ?thesis by simp
qed

lemma optional_drop_any:
  "\<exists>df1. (if n \<in> set (labels df) then drop_columns [n] df else Inr df) = Inr df1
           \<and> labels df1 = filter (\<lambda>l. l \<noteq> n) (labels df)"
proof (cases "n \<in> set (labels df)")
  case True
  then have "set [n] \<subseteq> set (labels df)" by simp
  from drop_columns_present[OF this] obtain df1 where d: "drop_columns [n] df = Inr df1" by blast
  from drop_columns_labels[OF d] d True show ?thesis by simp
next
  case False
  then have "filter (\<lambda>l. l \<noteq> n) (labels df) = labels df" by (auto intro: filter_True)
  with False show ?thesis by simp
qed

lemma csv_frame_rename:
  assumes c: "csv_frame df" and cl: "snd ` set ne_names \<inter> set (labels df) = {}"
  shows "wf_frame (rename ne_names df)" "texty (rename ne_names df)"
    "distinct (labels (rename ne_names df))"
    "labels (rename ne_names df) = map ne_label (labels df)"
    "\<forall>h \<in> set (columns (rename ne_names df)). snd h = Object"
proof -
  show l: "labels (rename ne_names df) = map ne_label (labels df)"
    by (simp add: labels_def rename_columns comp_def)
  show "wf_frame (rename ne_names df)"
    using c by (simp add: csv_frame_def wf_frame_def rename_columns rename_rows)
  show "texty (rename ne_names df)"
    using c unfolding csv_frame_def texty_def rename_rows by (auto dest: set_zip_rightD)
  have "inj_on ne_label (set (labels df))" using cl by (rule ne_label_inj)
  then show "distinct (labels (rename ne_names df))"
    using c unfolding l by (simp add: distinct_map csv_frame_def)
  show "\<forall>h \<in> set (columns (rename ne_names df)). snd h = Object"
    using c by (auto simp: rename_columns csv_frame_def)
qed

subsection \<open>The finisher on its own result\<close>

lemma clean_cell_NaN: "clean_cell ud h NaN = NaN"
  by (simp add: clean_cell_def Let_def)

lemma clean_cell_idem:
  assumes t: "ascii_tables ud" and a: "fst h \<in> set to_title \<longrightarrow> ascii_cell c"
  shows "clean_cell ud h (clean_cell ud h c) = clean_cell ud h c"
proof (cases c)
  case (Str s)
  have z: "\<not> is_space ud 48" using t by (rule ascii_zero)
  have a1: "strip ud (zfill 5 (strip ud s)) = zfill 5 (strip ud s)"
    by (intro strip_stripped stripped_zfill[OF z] stripped_strip)
  show ?thesis
  proof (cases "fst h \<in> set to_title")
    case True
    then have s: "ascii_text s" using a Str by (simp add: ascii_cell_def)
    have s': "ascii_text (strip ud s)" using s by (rule ascii_strip)
    have nz: "fst h \<noteq> ''Zip''" using True by (auto simp: to_title_def)
    have b: "strip ud (title ud (strip ud s)) = title ud (strip ud s)"
      by (intro strip_stripped stripped_title_ascii[OF t s'] stripped_strip)
    have c1: "title ud (title ud (strip ud s)) = title ud (strip ud s)"
      using t s' by (rule title_idem_ascii)
    have c2: "title ud (title ud s) = title ud s" using t s by (rule title_idem_ascii)
    show ?thesis unfolding Str
      by (simp add: clean_cell_def Let_def True nz b c1 c2)
  next
    case False
    show ?thesis unfolding Str
      by (simp add: clean_cell_def Let_def False a1 strip_idem zfill_idem)
  qed
next
  case NaN
  then show ?thesis by (simp add: clean_cell_NaN)
next
  case (Num n)
  then show ?thesis by (simp add: clean_cell_def Let_def)
qed

lemma clean_cell_texty: "snd h = Object \<Longrightarrow> is_Str (clean_cell ud h c) \<or> clean_cell ud h c = NaN"
  by (cases c) (auto simp: clean_cell_def Let_def)

lemma clean_cell_tag:
  assumes t: "ascii_tables ud"
  shows "clean_cell ud (''Hunt'', Object) (tag P n) = tag P n"
    and "clean_cell ud (''Fish'', Object) (tag P n) = tag P n"
proof -
  have "\<not> is_space ud 89" using t by (simp add: ascii_tables_def ascii_space_def)
  then have "stripped ud (lit ''Y'')" by (simp add: stripped_def lit_def)
  then have y: "strip ud (lit ''Y'') = lit ''Y''" by (rule strip_stripped)
  have e: "strip ud [] = []" by (simp add: strip_def)
  show "clean_cell ud (''Hunt'', Object) (tag P n) = tag P n"
    and "clean_cell ud (''Fish'', Object) (tag P n) = tag P n"
    by (simp_all add: clean_cell_def Let_def to_title_def tag_def y e)
qed

lemma view_self: "map_of (zip xs (map g xs)) k = (if k \<in> set xs then Some (g k) else None)"
  by (induction xs) auto

lemma lookup_self: "k \<in> set xs \<Longrightarrow> lookup xs (map g xs) k = g k"
  by (simp add: lookup_def view_self)

lemma finish_row_again:
  "finish_row std_columns P (finish_row ls P r) = finish_row ls P r"
proof -
  let ?g = "\<lambda>n. if n = ''Hunt'' then tag P ''Hunt'' else if n = ''Fish'' then tag P ''Fish'' else lookup ls r n"
  have "finish_row std_columns P (map ?g std_columns) = map ?g std_columns"
    unfolding finish_row_def[of std_columns] by (rule map_cong[OF refl]) (simp add: lookup_self)
  then show ?thesis by (simp add: finish_row_def[of ls])
qed

lemma dtype_out_columns:
  "map_of (out_columns hdr) l
   = (if l \<in> set std_columns
      then Some (if l = ''Hunt'' \<or> l = ''Fish'' then Object
                 else case map_of hdr l of Some dt \<Rightarrow> dt | None \<Rightarrow> Numeric)
      else None)"
proof -
  have "map_of (map (\<lambda>l. (l, g l)) xs) k = (if k \<in> set xs then Some (g k) else None)"
    for g :: "string \<Rightarrow> dtype" and xs k
    by (induction xs) auto
  then show ?thesis by (simp add: out_columns_def)
qed

lemma out_columns_again: "out_columns (out_columns hdr) = out_columns hdr"
  unfolding out_columns_def[of "out_columns hdr"] dtype_out_columns
  by (simp add: out_columns_def std_columns_def)

lemma view_mem:
  "map_of (zip (map fst hdr) r) l = Some c \<Longrightarrow> \<exists>dt. ((l, dt), c) \<in> set (zip hdr r)"
proof (induction hdr arbitrary: r)
  case Nil then show ?case by simp
next
  case (Cons h hdr)
  show ?case
  proof (cases r)
    case Nil
    with Cons.prems show ?thesis by simp
  next
    case (Cons x xs)
    show ?thesis
    proof (cases "fst h = l")
      case True
      with Cons.prems Cons have "c = x" by simp
      with True Cons show ?thesis by (cases h) auto
    next
      case False
      with Cons.prems Cons have "map_of (zip (map fst hdr) xs) l = Some c" by simp
      from Cons.IH[OF this] Cons show ?thesis by auto
    qed
  qed
qed

lemma clean_finish_row:
  assumes d: "distinct (map fst hdr)" and t: "ascii_tables ud"
    and a: "\<forall>(h, c) \<in> set (zip hdr r0). fst h \<in> set to_title \<longrightarrow> ascii_cell c"
  shows "clean_row ud (out_columns hdr) (finish_row (map fst hdr) P (clean_row ud hdr r0))
         = finish_row (map fst hdr) P (clean_row ud hdr r0)"
proof -
  let ?f = "\<lambda>l. (l, if l = ''Hunt'' \<or> l = ''Fish'' then Object
                  else (case map_of hdr l of Some dt \<Rightarrow> dt | None \<Rightarrow> Numeric))"
  let ?g = "\<lambda>n. if n = ''Hunt'' then tag P ''Hunt'' else if n = ''Fish'' then tag P ''Fish''
                else lookup (map fst hdr) (clean_row ud hdr r0) n"
  have cell: "clean_cell ud (?f l) (?g l) = ?g l" for l
  proof (cases "l = ''Hunt'' \<or> l = ''Fish''")
    case True
    then show ?thesis by (auto simp: clean_cell_tag[OF t])
  next
    case False
    show ?thesis
    proof (cases "map_of hdr l")
      case None
      then have "l \<notin> set (map fst hdr)" by (simp add: map_of_eq_None_iff)
      then have "lookup (map fst hdr) (clean_row ud hdr r0) l = NaN"
        by (simp add: lookup_def view_None)
      then show ?thesis using False by (simp add: clean_cell_NaN)
    next
      case (Some dt)
      show ?thesis
      proof (cases "map_of (zip (map fst hdr) r0) l")
        case None
        then show ?thesis using False Some
          by (simp add: lookup_clean_row[OF Some] clean_cell_NaN)
      next
        case (Some c0)
        from view_mem[OF this] obtain dt' where "((l, dt'), c0) \<in> set (zip hdr r0)" by blast
        with a have "fst (l, dt) \<in> set to_title \<longrightarrow> ascii_cell c0" by auto
        from clean_cell_idem[OF t this] show ?thesis using False Some \<open>map_of hdr l = Some dt\<close>
          by (simp add: lookup_clean_row[OF \<open>map_of hdr l = Some dt\<close>])
      qed
    qed
  qed
  have "clean_row ud (map ?f xs) (map ?g xs) = map ?g xs" for xs
    by (induction xs) (simp_all add: clean_row_def cell)
  then show ?thesis by (simp add: out_columns_def finish_row_def)
qed

lemma texty_finish_row:
  "(h, c) \<in> set (zip (out_columns hdr) (finish_row (map fst hdr) P (clean_row ud hdr r0))) \<Longrightarrow>
   snd h = Object \<Longrightarrow> is_Str c \<or> c = NaN"
proof -
  let ?f = "\<lambda>l. (l, if l = ''Hunt'' \<or> l = ''Fish'' then Object
                  else (case map_of hdr l of Some dt \<Rightarrow> dt | None \<Rightarrow> Numeric))"
  let ?g = "\<lambda>n. if n = ''Hunt'' then tag P ''Hunt'' else if n = ''Fish'' then tag P ''Fish''
                else lookup (map fst hdr) (clean_row ud hdr r0) n"
  assume "(h, c) \<in> set (zip (out_columns hdr) (finish_row (map fst hdr) P (clean_row ud hdr r0)))"
    and o: "snd h = Object"
  then have "(h, c) \<in> set (zip (map ?f std_columns) (map ?g std_columns))"
    by (simp add: out_columns_def finish_row_def)
  then obtain l where h: "h = ?f l" and c: "c = ?g l"
    by (auto simp: zip_map_map zip_same_conv_map)
  show ?thesis
  proof (cases "l = ''Hunt'' \<or> l = ''Fish''")
    case True
    then show ?thesis using c by (auto simp: tag_def)
  next
    case False
    show ?thesis
    proof (cases "map_of hdr l")
      case None
      then show ?thesis using h o False by simp
    next
      case (Some dt)
      then have "dt = Object" using h o False by simp
      then show ?thesis using c False Some clean_cell_texty[of "(l, Object)"]
        by (auto simp: lookup_clean_row[OF Some] split: option.splits)
    qed
  qed
qed

lemma length_finish_row: "length (finish_row ls P r) = 10"
  by (simp add: finish_row_def std_columns_def)

lemma length_out_columns: "length (out_columns hdr) = 10"
  by (simp add: out_columns_def std_columns_def)

lemma distinct_std_columns: "distinct std_columns"
  by (simp add: std_columns_def)

lemma common_twice:
  assumes wf: "wf_frame df" and c: "common ud df P = Inr out"
    and t: "ascii_tables ud" and a: "ascii_titles df"
  shows "common ud out P = Inr (out\<lparr>rows := dedup (rows out)\<rparr>)"
proof -
  let ?hdr = "columns df"
  note cr = common_rows[OF wf c]
  have ls: "labels df = map fst ?hdr" by (simp add: labels_def)
  have rows_form: "\<exists>r0 \<in> set (rows df). r = finish_row (map fst ?hdr) P (clean_row ud ?hdr r0)"
    if "r \<in> set (rows out)" for r
    using that unfolding cr(2) ls by (auto simp: set_dedup)
  have "length r = 10" if "r \<in> set (rows out)" for r
    using rows_form[OF that] by (auto simp: length_finish_row)
  then have wfo: "wf_frame out"
    unfolding wf_frame_def cr(1) by (simp add: length_out_columns)
  have to: "texty out"
    unfolding texty_def cr(1)
  proof (intro ballI)
    fix r x assume r: "r \<in> set (rows out)" and x: "x \<in> set (zip (out_columns ?hdr) r)"
    obtain r0 where r0: "r = finish_row (map fst ?hdr) P (clean_row ud ?hdr r0)" using rows_form[OF r] by blast
    obtain h c where hc: "x = (h, c)" by (cases x)
    from x have "(h, c) \<in> set (zip (out_columns ?hdr) (finish_row (map fst ?hdr) P (clean_row ud ?hdr r0)))"
      unfolding hc r0 .
    from texty_finish_row[OF this] show "case x of (h, c) \<Rightarrow> snd h = Object \<longrightarrow> is_Str c \<or> c = NaN"
      unfolding hc by simp
  qed
  have sc: "strip_check out" using wfo to by (rule strip_check_texty)
  have lo: "labels out = std_columns" using c common_shape by blast
  have di: "distinct (labels out)" unfolding lo by (rule distinct_std_columns)
  have dh: "distinct (map fst ?hdr)" using cr(3) by (simp add: labels_def)
  have m: "\<forall>n \<in> set (''Zip'' # to_title). (n, Object) \<in> set (columns out)"
  proof
    fix n assume n: "n \<in> set (''Zip'' # to_title)"
    then have "(n, Object) \<in> set ?hdr" using cr(4) by blast
    with dh have "map_of ?hdr n = Some Object" by (rule map_of_is_SomeI)
    moreover have "n \<in> set std_columns" "n \<noteq> ''Hunt''" "n \<noteq> ''Fish''"
      using n by (auto simp: to_title_def std_columns_def)
    ultimately have "map_of (out_columns ?hdr) n = Some Object" by (simp add: dtype_out_columns)
    then show "(n, Object) \<in> set (columns out)" unfolding cr(1) by (rule map_of_SomeD)
  qed
  have cl: "map (clean_row ud (columns out)) (rows out) = rows out"
  proof (rule map_idI)
    fix r assume "r \<in> set (rows out)"
    then obtain r0 where m0: "r0 \<in> set (rows df)"
      and r0: "r = finish_row (map fst ?hdr) P (clean_row ud ?hdr r0)" using rows_form by blast
    have "\<forall>(h, c) \<in> set (zip ?hdr r0). fst h \<in> set to_title \<longrightarrow> ascii_cell c"
      using a m0 by (simp add: ascii_titles_def)
    with dh t show "clean_row ud (columns out) r = r" unfolding cr(1) r0 by (rule clean_finish_row)
  qed
  have fi: "map (finish_row (labels out) P) (dedup (rows out)) = dedup (rows out)"
  proof (rule map_idI)
    fix r assume "r \<in> set (dedup (rows out))"
    then have "r \<in> set (rows out)" by (simp add: set_dedup)
    then obtain r0 where r0: "r = finish_row (map fst ?hdr) P (clean_row ud ?hdr r0)" using rows_form by blast
    show "finish_row (labels out) P r = r" unfolding lo r0 by (rule finish_row_again)
  qed
  have oc: "out_columns (columns out) = columns out" unfolding cr(1) by (rule out_columns_again)
  show ?thesis unfolding common_ok[OF wfo sc di m] cl fi oc by simp
qed

lemma data_columns_std:
  "n \<in> set data_columns \<Longrightarrow> n \<in> set std_columns \<and> n \<noteq> ''Hunt'' \<and> n \<noteq> ''Fish''"
  unfolding data_columns_def std_columns_def by fastforce

lemma finish_row_inj:
  assumes d: "distinct ls" and s: "set ls \<subseteq> set data_columns"
    and l1: "length r1 = length ls" and l2: "length r2 = length ls"
    and e: "finish_row ls P r1 = finish_row ls P r2"
  shows "r1 = r2"
proof -
  have "map_of (zip ls r1) = map_of (zip ls r2)"
  proof
    fix n
    show "map_of (zip ls r1) n = map_of (zip ls r2) n"
    proof (cases "n \<in> set ls")
      case False
      then show ?thesis by (simp add: view_None)
    next
      case True
      then have "n \<in> set data_columns" using s by blast
      then have n: "n \<in> set std_columns" "n \<noteq> ''Hunt''" "n \<noteq> ''Fish''"
        using data_columns_std by blast+
      from e have "\<forall>k \<in> set std_columns.
          (if k = ''Hunt'' then tag P ''Hunt'' else if k = ''Fish'' then tag P ''Fish'' else lookup ls r1 k)
        = (if k = ''Hunt'' then tag P ''Hunt'' else if k = ''Fish'' then tag P ''Fish'' else lookup ls r2 k)"
        unfolding finish_row_def by (simp only: map_eq_conv)
      with n have lk: "lookup ls r1 n = lookup ls r2 n" by auto
      obtain c1 where c1: "map_of (zip ls r1) n = Some c1" using view_Some[OF l1 True] by blast
      obtain c2 where c2: "map_of (zip ls r2) n = Some c2" using view_Some[OF l2 True] by blast
      show ?thesis using lk c1 c2 by (simp add: lookup_def)
    qed
  qed
  with map_of_zip_inject[OF l1 l2 d] show ?thesis by simp
qed

lemma common_distinct_rows:
  assumes wf: "wf_frame df" and c: "common ud df P = Inr out"
    and s: "set (labels df) \<subseteq> set data_columns"
  shows "distinct (rows out)"
proof -
  note cr = common_rows[OF wf c]
  have len: "length r = length (labels df)" if "r \<in> set (dedup (map (clean_row ud (columns df)) (rows df)))" for r
    using that wf unfolding set_dedup by (auto simp: wf_frame_def labels_def clean_row_length)
  have "inj_on (finish_row (labels df) P) (set (dedup (map (clean_row ud (columns df)) (rows df))))"
    by (rule inj_onI) (rule finish_row_inj[OF cr(3) s], auto simp: len)
  then show ?thesis unfolding cr(2) by (simp add: distinct_map distinct_dedup)
qed

subsection \<open>The Zip column and the number of rows of the result\<close>

lemma finish_row_zip:
  assumes wf: "wf_frame df" and c: "common ud df PATH = Inr out"
  shows "finish_row (labels df) PATH (clean_row ud (columns df) r0) ! 7
         = str_map (zfill 5) (str_map (strip ud) (lookup (labels df) r0 ''Zip''))"
proof -
  have "distinct (map fst (columns df))" using common_rows(3)[OF wf c] by (simp add: labels_def)
  moreover have "(''Zip'', Object) \<in> set (columns df)" using common_rows(4)[OF wf c] by simp
  ultimately have m: "map_of (columns df) ''Zip'' = Some Object" by (rule map_of_is_SomeI)
  have "finish_row (labels df) PATH (clean_row ud (columns df) r0) ! 7
        = lookup (labels df) (clean_row ud (columns df) r0) ''Zip''"
    by (simp add: finish_row_def std_columns_def)
  also have "\<dots> = str_map (zfill 5) (str_map (strip ud) (lookup (labels df) r0 ''Zip''))"
    unfolding labels_def lookup_clean_row[OF m]
    by (simp add: lookup_def clean_cell_zip split: option.splits)
  finally show ?thesis .
qed

lemma common_zip_values:
  assumes wf: "wf_frame df" and c: "common ud df PATH = Inr out"
  shows "set (column_at 7 out)
         = (\<lambda>r0. str_map (zfill 5) (str_map (strip ud) (lookup (labels df) r0 ''Zip''))) ` set (rows df)"
proof -
  have "set (column_at 7 out)
        = (\<lambda>r0. finish_row (labels df) PATH (clean_row ud (columns df) r0) ! 7) ` set (rows df)"
    unfolding column_at_def common_rows(2)[OF wf c] by (simp add: set_dedup image_image)
  then show ?thesis unfolding finish_row_zip[OF wf c] .
qed

lemma common_no_rows:
  assumes wf: "wf_frame df" and c: "common ud df PATH = Inr out"
  shows "rows out = [] \<longleftrightarrow> rows df = []"
proof -
  have "rows out = [] \<longleftrightarrow> set (rows out) = {}" by simp
  also have "\<dots> \<longleftrightarrow> rows df = []"
    unfolding common_rows(2)[OF wf c] by (simp add: set_dedup)
  finally show ?thesis .
qed

lemma common_length:
  assumes wf: "wf_frame df" and c: "common ud df PATH = Inr out"
  shows "length (rows out) = card (clean_row ud (columns df) ` set (rows df))"
  unfolding common_rows(2)[OF wf c] by (simp add: length_dedup)

lemma common_shorter:
  assumes wf: "wf_frame df" and c: "common ud df PATH = Inr out"
  shows "length (rows out) \<le> card (set (rows df))"
  unfolding common_length[OF wf c] by (rule card_image_le) simp

lemma common_single_row:
  assumes wf: "wf_frame df" and c: "common ud df PATH = Inr out"
    and r: "r \<in> set (rows df)" and t: "\<forall>x \<in> set r. is_Str x \<or> x = NaN"
  shows "common ud (df\<lparr>rows := [r]\<rparr>) PATH
         = Inr (out\<lparr>rows := [finish_row (labels df) PATH (clean_row ud (columns df) r)]\<rparr>)"
proof -
  let ?d = "df\<lparr>rows := [r]\<rparr>"
  have len: "length r = length (columns df)" using wf r by (simp add: wf_frame_def)
  have wf1: "wf_frame ?d" using len by (simp add: wf_frame_def)
  have "str_accessible Object (column_at i ?d)" if "i < length (columns df)" for i
  proof -
    have "r ! i \<in> set r" using that len by simp
    with t have "is_Str (r ! i) \<or> r ! i = NaN" by blast
    then show ?thesis by (auto simp: str_accessible_def column_at_def)
  qed
  then have sc: "strip_check ?d" by (simp add: strip_check_def)
  have d: "distinct (labels ?d)" using common_rows(3)[OF wf c] by (simp add: labels_def)
  have m: "\<forall>n \<in> set (''Zip'' # to_title). (n, Object) \<in> set (columns ?d)"
    using common_rows(4)[OF wf c] by simp
  have "common ud ?d PATH
        = Inr \<lparr>columns = out_columns (columns df),
               rows = [finish_row (labels df) PATH (clean_row ud (columns df) r)]\<rparr>"
    using common_ok[OF wf1 sc d m, where ud = ud and PATH = PATH] by (simp add: labels_def)
  moreover have "out\<lparr>rows := [finish_row (labels df) PATH (clean_row ud (columns df) r)]\<rparr>
        = \<lparr>columns = out_columns (columns df),
           rows = [finish_row (labels df) PATH (clean_row ud (columns df) r)]\<rparr>"
    using common_rows(1)[OF wf c] by simp
  ultimately show ?thesis by simp
qed

subsection \<open>The state aggregator\<close>

lemma transform_shape:
  assumes "getattr_prep ev m = Inr t" and "t f = Inr d"
  shows "labels d = std_columns"
proof -
  from assms have "nebraska ev f = Inr d \<or> north_dakota ev f = Inr d"
    by (auto simp: getattr_prep_def split: if_splits)
  then obtain df where "common (unicode_db ev) df f = Inr d"
    by (auto simp: nebraska_def north_dakota_def split: sum.splits)
  then show ?thesis using common_shape by blast
qed

lemma call_each_shape:
  "call_each ev m files = Inr dfs \<Longrightarrow>
   length dfs = length files \<and> (\<forall>d \<in> set dfs. labels d = std_columns)"
proof (induction files arbitrary: dfs)
  case Nil
  then show ?case by simp
next
  case (Cons f files)
  from Cons.prems obtain t d ds where
    t: "getattr_prep ev m = Inr t" "t f = Inr d" and r: "call_each ev m files = Inr ds"
    and e: "dfs = d # ds"
    by (auto split: sum.splits)
  from Cons.IH[OF r] transform_shape[OF t] e show ?case by simp
qed

lemma pd_concat_same:
  assumes "dfs \<noteq> []" and "\<forall>d \<in> set dfs. labels d = L"
  shows "\<exists>out. pd_concat dfs = Inr out \<and> labels out = L \<and> rows out = concat (map rows dfs)"
proof -
  from assms(1) obtain d ds where e: "dfs = d # ds" by (cases dfs) auto
  have a: "\<forall>df \<in> set ds. labels df = labels d" using assms(2) e by simp
  have "map (\<lambda>i. xs ! i) [0..<length xs] = xs" for xs :: "string list"
    by (rule map_nth)
  then have "map (\<lambda>i. labels d ! i) [0..<length (columns d)] = labels d"
    by (metis labels_def length_map)
  then show ?thesis using a assms(2) unfolding e pd_concat_def
    by (simp add: labels_def[of "\<lparr>columns = _, rows = _\<rparr>"] comp_def)
qed

lemma prep_state_rows:
  assumes "prep_state ev sd m = Inr out"
  shows "\<exists>files dfs. state_files ev sd = Inr files \<and> call_each ev m files = Inr dfs
           \<and> files \<noteq> [] \<and> labels out = std_columns \<and> rows out = dedup (concat (map rows dfs))"
proof -
  from assms obtain files dfs df where
    f: "state_files ev sd = Inr files" and c: "call_each ev m files = Inr dfs"
    and p: "pd_concat dfs = Inr df" and o: "out = drop_duplicates df"
    by (auto simp: prep_state_def split: sum.splits)
  have ne: "dfs \<noteq> []" using p by (auto simp: pd_concat_def)
  note sh = call_each_shape[OF c]
  from pd_concat_same[OF ne, of std_columns] sh p
  have l: "labels df = std_columns" and r: "rows df = concat (map rows dfs)" by auto
  have "columns df \<noteq> []" using l by (auto simp: labels_def std_columns_def)
  then have "rows out = dedup (rows df)" "labels out = labels df"
    unfolding o by (auto simp: drop_duplicates_def labels_def)
  moreover have "files \<noteq> []" using ne sh by auto
  ultimately show ?thesis using f c l r by auto
qed

lemma prep_state_ok:
  assumes f: "state_files ev sd = Inr files" and ne: "files \<noteq> []"
    and c: "call_each ev m files = Inr dfs"
  shows "\<exists>out. prep_state ev sd m = Inr out \<and> labels out = std_columns
           \<and> rows out = dedup (concat (map rows dfs))"
proof -
  note sh = call_each_shape[OF c]
  have "dfs \<noteq> []" using sh ne by auto
  from pd_concat_same[OF this, of std_columns] sh obtain df where
    p: "pd_concat dfs = Inr df" and l: "labels df = std_columns" and r: "rows df = concat (map rows dfs)"
    by auto
  have "columns df \<noteq> []" using l by (auto simp: labels_def std_columns_def)
  then have "rows (drop_duplicates df) = dedup (rows df)" "labels (drop_duplicates df) = labels df"
    by (auto simp: drop_duplicates_def labels_def)
  then show ?thesis using l r by (simp add: prep_state_def f c p)
qed

lemma prep_state_no_files:
  assumes f: "state_files ev sd = Inr []"
  shows "prep_state ev sd m = Inl ValueError"
  by (simp add: prep_state_def f pd_concat_def)

lemma prep_state_no_root:
  assumes "listdir ev sd = None"
  shows "prep_state ev sd m = Inl OSError"
  using assms by (simp add: prep_state_def state_files_def)

lemma count_list_distinct: "distinct xs \<Longrightarrow> x \<in> set xs \<Longrightarrow> count_list xs x = 1"
  by (induction xs) auto

section \<open>The sample files, evaluated\<close>

lemma demo_wf: "wf_frame demo_frame"
  by (simp add: wf_frame_def demo_frame_def)

lemma demo_common: "common sample_ud demo_frame ''Nebraska/Hunt/a.txt'' = Inr demo_out"
  by code_simp

lemma long_zip_wf: "wf_frame long_zip_frame"
  by (simp add: wf_frame_def long_zip_frame_def)

lemma long_zip_common: "common sample_ud long_zip_frame ''Nebraska/Fish/b.txt'' = Inr long_zip_out"
  by code_simp

lemma signed_zip_common:
  "common sample_ud signed_zip_frame ''Nebraska/Hunt/s.txt'' = Inr signed_zip_out"
  by code_simp

lemma empty_common: "common sample_ud empty_frame ''Nebraska/Hunt/none.txt'' = Inr empty_out"
  by code_simp

lemma nd_demo: "north_dakota nd_env ''North Dakota/Hunt/a.xlsx'' = Inr nd_out"
  by code_simp

lemma ne_plain_demo: "nebraska ne_env ''Nebraska/Hunt/plain.txt'' = Inr ne_plain_out"
  by code_simp

lemma ne_no_year_demo: "nebraska ne_env ''Nebraska/Hunt/no_year.txt'' = Inl (KeyError [''permitYear''])"
  by code_simp

lemma extra_wf: "wf_frame extra_frame"
  by (simp add: wf_frame_def extra_frame_def)

lemma extra_common: "common sample_ud extra_frame ''Nebraska/Hunt/c.txt'' = Inr extra_out"
  by code_simp

lemma extra_common2: "common sample_ud extra_out ''Nebraska/Hunt/c.txt'' = Inr extra_out2"
  by code_simp

lemma dotted_common: "common sample_ud dotted_frame ''Nebraska/Hunt/e.txt'' = Inr dotted_out"
  by code_simp

lemma dotted_common2: "common sample_ud dotted_out ''Nebraska/Hunt/e.txt'' = Inr dotted_out2"
  by code_simp

lemma dup_common: "common sample_ud dup_frame ''Nebraska/Fish/d.txt'' = Inr dup_out"
  by code_simp

lemma state_demo: "prep_state state_env ''Nebraska'' ''nebraska'' = Inr ne_plain_out"
  by code_simp

lemma state_demo_files:
  "state_files state_env ''Nebraska'' = Inr [''Nebraska/Hunt/a.txt'', ''Nebraska/Hunt/b.txt'']"
  by code_simp

lemma state_demo_frames:
  "call_each state_env ''nebraska'' [''Nebraska/Hunt/a.txt'', ''Nebraska/Hunt/b.txt'']
   = Inr [ne_plain_out, ne_plain_out]"
  by code_simp

lemma state_demo_folders:
  "folder_files state_env [''Nebraska/Hunt'', ''Nebraska/Fish'']
   = Inr [[''Nebraska/Hunt/a.txt'', ''Nebraska/Hunt/b.txt''], []]"
  by code_simp

lemma empty_state_demo: "prep_state empty_state_env ''Nebraska'' ''nebraska'' = Inl ValueError"
  by code_simp

lemma sample_tables: "ascii_tables sample_ud"
  by (simp add: ascii_tables_def sample_ud_def)

lemma demo_ascii: "ascii_titles demo_frame"
  by (simp add: ascii_titles_def demo_frame_def ascii_cell_def ascii_text_def lit_def to_title_def)

lemma extra_ascii: "ascii_titles extra_frame"
  by (simp add: ascii_titles_def extra_frame_def ascii_cell_def ascii_text_def lit_def to_title_def)

lemma demo_common_both:
  "common sample_ud demo_frame ''Nebraska/Hunt and Fish/a.txt''
   = Inr (demo_out\<lparr>rows := map (\<lambda>r. r[9 := Str (lit ''Y'')]) (rows demo_out)\<rparr>)"
  by code_simp

lemma demo_common_neither:
  "common sample_ud demo_frame ''Nebraska/a.txt''
   = Inr (demo_out\<lparr>rows := map (\<lambda>r. r[8 := Str []]) (rows demo_out)\<rparr>)"
  by code_simp

lemma twin_wf: "wf_frame twin_frame"
  by (simp add: wf_frame_def twin_frame_def)

lemma twin_common: "common sample_ud twin_frame ''Nebraska/Fish/t.txt'' = Inr twin_out"
  by code_simp

section \<open>The claims\<close>

text \<open>
  C1, as the code has it. Whenever the finisher returns, the eighth column of the result
  is Zip, and its values are exactly what the Zip cells of the input give: a string gives
  the string stripped of white space and then zero-filled to five characters, a missing
  cell or a cell that is no string gives a missing value. A zero-filled string has
  \<open>max 5 n\<close> characters for a stripped input of \<open>n\<close>: at least five, exactly five when the
  stripped input has at most five, and all of them when it has more. So a Zip of the
  result is missing or a string of five or more characters.
\<close>

theorem zip_values_padded:
  assumes "wf_frame df" and "common ud df PATH = Inr out"
  shows "labels out ! 7 = ''Zip''
         \<and> set (column_at 7 out)
             = (\<lambda>r0. str_map (zfill 5) (str_map (strip ud) (lookup (labels df) r0 ''Zip''))) ` set (rows df)
         \<and> (\<forall>r0 \<in> set (rows df). \<forall>s0. lookup (labels df) r0 ''Zip'' = Str s0
               \<longrightarrow> Str (zfill 5 (strip ud s0)) \<in> set (column_at 7 out)
                   \<and> length (zfill 5 (strip ud s0)) = max 5 (length (strip ud s0)))
         \<and> (\<forall>c \<in> set (column_at 7 out).
               (c = NaN \<and> (\<exists>r0 \<in> set (rows df). \<not> is_Str (lookup (labels df) r0 ''Zip'')))
             \<or> (\<exists>s. c = Str s \<and> 5 \<le> length s))"
proof -
  let ?f = "\<lambda>r0. str_map (zfill 5) (str_map (strip ud) (lookup (labels df) r0 ''Zip''))"
  have "labels out = std_columns" using assms(2) common_shape by blast
  then have a: "labels out ! 7 = ''Zip''" by (simp add: std_columns_def)
  have b: "set (column_at 7 out) = ?f ` set (rows df)" using assms by (rule common_zip_values)
  have c: "Str (zfill 5 (strip ud s0)) \<in> set (column_at 7 out)
           \<and> length (zfill 5 (strip ud s0)) = max 5 (length (strip ud s0))"
    if "r0 \<in> set (rows df)" "lookup (labels df) r0 ''Zip'' = Str s0" for r0 s0
  proof -
    have "?f r0 \<in> set (column_at 7 out)" unfolding b using that(1) by (rule imageI)
    then show ?thesis using that(2) zfill_length by simp
  qed
  have d: "(x = NaN \<and> (\<exists>r0 \<in> set (rows df). \<not> is_Str (lookup (labels df) r0 ''Zip'')))
           \<or> (\<exists>s. x = Str s \<and> 5 \<le> length s)" if "x \<in> set (column_at 7 out)" for x
  proof -
    from that obtain r0 where r0: "r0 \<in> set (rows df)" and x: "x = ?f r0" unfolding b by blast
    show ?thesis
    proof (cases "lookup (labels df) r0 ''Zip''")
      case (Str s0)
      then have "x = Str (zfill 5 (strip ud s0))" using x by simp
      moreover have "5 \<le> length (zfill 5 (strip ud s0))" by (simp add: zfill_length)
      ultimately show ?thesis by blast
    next
      case NaN
      then have "x = NaN" using x by simp
      with NaN r0 show ?thesis by force
    next
      case (Num n)
      then have "x = NaN" using x by simp
      with Num r0 show ?thesis by force
    qed
  qed
  show ?thesis using a b c d by blast
qed

theorem zip_values_padded_witness:
  "wf_frame demo_frame
   \<and> common sample_ud demo_frame ''Nebraska/Hunt/a.txt'' = Inr demo_out
   \<and> column_at 6 demo_frame = [Str (lit ''685''), Str (160 # lit ''685''), Str (lit ''681021234'')]
   \<and> labels demo_out ! 7 = ''Zip''
   \<and> column_at 7 demo_out = [Str (lit ''00685''), Str (lit ''681021234'')]
   \<and> set (column_at 7 demo_out)
       = (\<lambda>r0. str_map (zfill 5) (str_map (strip sample_ud) (lookup (labels demo_frame) r0 ''Zip'')))
           ` set (rows demo_frame)
   \<and> list_all (\<lambda>c. \<exists>s. c = Str s \<and> 5 \<le> length s) (column_at 7 demo_out)"
  using zip_values_padded[OF demo_wf demo_common] demo_wf demo_common
  by (simp add: demo_frame_def demo_out_def column_at_def lit_def)

theorem zip_length_counterexample:
  "common sample_ud long_zip_frame ''Nebraska/Fish/b.txt'' = Inr long_zip_out
   \<and> labels long_zip_out ! 7 = ''Zip''
   \<and> column_at 7 long_zip_out = [Str (lit ''681021234''), NaN]
   \<and> length (lit ''681021234'') = 9"
  using long_zip_common by (simp add: long_zip_out_def column_at_def labels_def lit_def)

text \<open>
  C2, where the code departs from it. The Zip step zero-fills with \<^verbatim>\<open>str.zfill\<close>, which
  keeps a leading sign in front: when the stripped Zip of a row begins with \<open>+\<close> (43) or
  \<open>-\<close> (45) and has fewer than five characters, the result holds the sign, then the
  zeros, then the rest, which is not the value with the zeros in front of it.
\<close>

theorem zip_sign_fill:
  assumes "wf_frame df" and "common ud df PATH = Inr out"
    and "r0 \<in> set (rows df)" and "lookup (labels df) r0 ''Zip'' = Str s0"
    and "strip ud s0 = c # cs" and "c = 43 \<or> c = 45" and "length cs < 4"
  shows "Str (c # replicate (4 - length cs) 48 @ cs) \<in> set (column_at 7 out)
         \<and> c # replicate (4 - length cs) 48 @ cs \<noteq> replicate (4 - length cs) 48 @ c # cs"
proof -
  let ?f = "\<lambda>r0. str_map (zfill 5) (str_map (strip ud) (lookup (labels df) r0 ''Zip''))"
  have "?f r0 \<in> set (column_at 7 out)"
    unfolding common_zip_values[OF assms(1,2)] using assms(3) by (rule imageI)
  moreover have "zfill 5 (c # cs) = c # replicate (4 - length cs) 48 @ cs"
    using assms(6,7) by (auto simp: zfill_def)
  ultimately have a: "Str (c # replicate (4 - length cs) 48 @ cs) \<in> set (column_at 7 out)"
    using assms(4,5) by simp
  obtain n where n: "4 - length cs = Suc n" using assms(7) by (cases "4 - length cs") auto
  have "c \<noteq> 48" using assms(6) by auto
  then have "c # replicate (4 - length cs) 48 @ cs \<noteq> replicate (4 - length cs) 48 @ c # cs"
    unfolding n by simp
  with a show ?thesis by blast
qed

theorem zip_sign_fill_witness:
  "wf_frame signed_zip_frame
   \<and> common sample_ud signed_zip_frame ''Nebraska/Hunt/s.txt'' = Inr signed_zip_out
   \<and> column_at 6 signed_zip_frame = [Str (lit ''-12''), Str (lit ''A1'')]
   \<and> column_at 7 signed_zip_out = [Str (lit ''-0012''), Str (lit ''000A1'')]
   \<and> Str (lit ''-0012'') \<in> set (column_at 7 signed_zip_out)
   \<and> lit ''-0012'' \<noteq> lit ''00-12''"
proof -
  have wf: "wf_frame signed_zip_frame" by (simp add: wf_frame_def signed_zip_frame_def)
  have r: "rows signed_zip_frame ! 0 \<in> set (rows signed_zip_frame)"
    by (simp add: signed_zip_frame_def)
  have l: "lookup (labels signed_zip_frame) (rows signed_zip_frame ! 0) ''Zip'' = Str (lit ''-12'')"
    by (simp add: signed_zip_frame_def lookup_def labels_def)
  have s: "strip sample_ud (lit ''-12'') = 45 # lit ''12''"
    by (simp add: strip_def sample_ud_def lit_def ascii_space_def)
  from zip_sign_fill[OF wf signed_zip_common r l s]
  have "Str (lit ''-0012'') \<in> set (column_at 7 signed_zip_out) \<and> lit ''-0012'' \<noteq> lit ''00-12''"
    by (simp add: lit_def numeral_eq_Suc)
  then show ?thesis using wf signed_zip_common
    by (simp add: signed_zip_frame_def signed_zip_out_def column_at_def)
qed

text \<open>
  C3. Whenever the finisher returns, the ninth and tenth columns of the result are Hunt
  and Fish, the result has a row exactly when the input has one, and on every row Hunt
  is \<open>Y\<close> exactly when \<open>Hunt\<close> occurs somewhere in the path and is empty otherwise, and
  Fish likewise for \<open>Fish\<close>, each on its own; \<open>contains\<close> is the substring test.
\<close>

theorem hunt_fish_tagging:
  assumes "wf_frame df" and "common ud df PATH = Inr out"
  shows "(\<forall>r \<in> set (rows out).
            r ! 8 = Str (if contains PATH ''Hunt'' then lit ''Y'' else [])
          \<and> r ! 9 = Str (if contains PATH ''Fish'' then lit ''Y'' else []))
         \<and> labels out ! 8 = ''Hunt'' \<and> labels out ! 9 = ''Fish''
         \<and> (rows out = [] \<longleftrightarrow> rows df = [])
         \<and> (contains PATH ''Hunt'' \<longleftrightarrow> (\<exists>a b. PATH = a @ ''Hunt'' @ b))
         \<and> (contains PATH ''Fish'' \<longleftrightarrow> (\<exists>a b. PATH = a @ ''Fish'' @ b))"
proof -
  have "labels out = std_columns" using assms(2) common_shape by blast
  then have l: "labels out ! 8 = ''Hunt'' \<and> labels out ! 9 = ''Fish''"
    by (simp add: std_columns_def)
  have r: "r ! 8 = Str (if contains PATH ''Hunt'' then lit ''Y'' else [])
          \<and> r ! 9 = Str (if contains PATH ''Fish'' then lit ''Y'' else [])" if "r \<in> set (rows out)" for r
    using that unfolding common_rows(2)[OF assms]
    by (auto simp: finish_row_def std_columns_def tag_def)
  have e: "rows out = [] \<longleftrightarrow> rows df = []" using assms by (rule common_no_rows)
  show ?thesis using l r e contains_iff by blast
qed

theorem hunt_fish_tagging_witness:
  "common sample_ud demo_frame ''Nebraska/Hunt/a.txt'' = Inr demo_out
   \<and> length (rows demo_out) = 2
   \<and> list_all (\<lambda>r. r ! 8 = Str (lit ''Y'') \<and> r ! 9 = Str []) (rows demo_out)
   \<and> common sample_ud long_zip_frame ''Nebraska/Fish/b.txt'' = Inr long_zip_out
   \<and> length (rows long_zip_out) = 2
   \<and> list_all (\<lambda>r. r ! 8 = Str [] \<and> r ! 9 = Str (lit ''Y'')) (rows long_zip_out)
   \<and> common sample_ud demo_frame ''Nebraska/Hunt and Fish/a.txt''
       = Inr (demo_out\<lparr>rows := map (\<lambda>r. r[9 := Str (lit ''Y'')]) (rows demo_out)\<rparr>)
   \<and> list_all (\<lambda>r. r ! 8 = Str (lit ''Y'') \<and> r ! 9 = Str (lit ''Y''))
        (map (\<lambda>r. r[9 := Str (lit ''Y'')]) (rows demo_out))
   \<and> common sample_ud demo_frame ''Nebraska/a.txt''
       = Inr (demo_out\<lparr>rows := map (\<lambda>r. r[8 := Str []]) (rows demo_out)\<rparr>)
   \<and> list_all (\<lambda>r. r ! 8 = Str [] \<and> r ! 9 = Str []) (map (\<lambda>r. r[8 := Str []]) (rows demo_out))"
  using hunt_fish_tagging[OF demo_wf demo_common] hunt_fish_tagging[OF long_zip_wf long_zip_common]
    hunt_fish_tagging[OF demo_wf demo_common_both] hunt_fish_tagging[OF demo_wf demo_common_neither]
    demo_common long_zip_common demo_common_both demo_common_neither
  by (simp add: demo_out_def long_zip_out_def)

text \<open>
  C4, as the code has it. Let the tables of Unicode be as they are on the ASCII
  characters, and let the texts of the five title-cased columns be ASCII. Then the
  finisher applied to its own result, with the same path, gives that result with its
  duplicate rows removed. Duplicates are dropped before the tags are written and the
  columns are cut down to the standard ones, so the first result can hold equal rows; it
  cannot when every column of the input is one of the eight data columns, and then the
  second run changes nothing. Outside ASCII the title-casing of a title-cased text can
  change it again, and then the second run changes the result.
\<close>

theorem common_idempotent:
  assumes "wf_frame df" and "common ud df PATH = Inr out"
    and "ascii_tables ud" and "ascii_titles df"
  shows "common ud out PATH = Inr (out\<lparr>rows := dedup (rows out)\<rparr>)
         \<and> (set (labels df) \<subseteq> set data_columns \<longrightarrow> common ud out PATH = Inr out)"
proof -
  have a: "common ud out PATH = Inr (out\<lparr>rows := dedup (rows out)\<rparr>)"
    using assms by (rule common_twice)
  have "common ud out PATH = Inr out" if "set (labels df) \<subseteq> set data_columns"
  proof -
    have "distinct (rows out)" using assms(1,2) that by (rule common_distinct_rows)
    then have "dedup (rows out) = rows out" by (rule dedup_distinct)
    then show ?thesis using a by simp
  qed
  then show ?thesis using a by blast
qed

theorem common_idempotent_witness:
  "wf_frame demo_frame \<and> common sample_ud demo_frame ''Nebraska/Hunt/a.txt'' = Inr demo_out
   \<and> ascii_tables sample_ud \<and> ascii_titles demo_frame
   \<and> set (labels demo_frame) \<subseteq> set data_columns
   \<and> common sample_ud demo_out ''Nebraska/Hunt/a.txt'' = Inr demo_out
   \<and> wf_frame extra_frame \<and> common sample_ud extra_frame ''Nebraska/Hunt/c.txt'' = Inr extra_out
   \<and> ascii_titles extra_frame
   \<and> common sample_ud extra_out ''Nebraska/Hunt/c.txt'' = Inr (extra_out\<lparr>rows := dedup (rows extra_out)\<rparr>)"
proof -
  have s: "set (labels demo_frame) \<subseteq> set data_columns"
    by (simp add: demo_frame_def labels_def data_columns_def)
  from common_idempotent[OF demo_wf demo_common sample_tables demo_ascii] s
  have "common sample_ud demo_out ''Nebraska/Hunt/a.txt'' = Inr demo_out" by blast
  moreover from common_idempotent[OF extra_wf extra_common sample_tables extra_ascii]
  have "common sample_ud extra_out ''Nebraska/Hunt/c.txt'' = Inr (extra_out\<lparr>rows := dedup (rows extra_out)\<rparr>)"
    by blast
  ultimately show ?thesis
    using s demo_wf demo_common extra_wf extra_common sample_tables demo_ascii extra_ascii by simp
qed

theorem common_idempotent_counterexample:
  "common sample_ud extra_frame ''Nebraska/Hunt/c.txt'' = Inr extra_out
   \<and> common sample_ud extra_out ''Nebraska/Hunt/c.txt'' = Inr extra_out2
   \<and> extra_out2 \<noteq> extra_out
   \<and> length (rows extra_out) = 2 \<and> length (rows extra_out2) = 1
   \<and> set (labels dotted_frame) \<subseteq> set data_columns
   \<and> common sample_ud dotted_frame ''Nebraska/Hunt/e.txt'' = Inr dotted_out
   \<and> common sample_ud dotted_out ''Nebraska/Hunt/e.txt'' = Inr dotted_out2
   \<and> dotted_out2 \<noteq> dotted_out"
  using extra_common extra_common2 dotted_common dotted_common2
  by (simp add: extra_out_def extra_out2_def dotted_frame_def dotted_out_def dotted_out2_def
      labels_def data_columns_def)

text \<open>
  C5, as the code has it. The finisher drops duplicates among the cleaned rows, over
  all the columns the input has: its result has one row for every distinct cleaned row,
  so no more rows than the input has distinct rows, fewer rows than the input when two
  rows of the input are equal, and a row whenever the input has one. When every column
  of the input is one of the eight data columns, the rows of the result are pairwise
  distinct, and what the finisher makes of a row of text cells taken alone is in the
  result exactly once. The result of the state aggregator has pairwise distinct rows,
  and every row that a file of the state contributes is there exactly once.
\<close>

theorem duplicates_removed:
  "(wf_frame df \<and> common ud df PATH = Inr out \<longrightarrow>
      length (rows out) = card (clean_row ud (columns df) ` set (rows df))
      \<and> length (rows out) \<le> card (set (rows df))
      \<and> (\<not> distinct (rows df) \<longrightarrow> length (rows out) < length (rows df))
      \<and> (rows out = [] \<longleftrightarrow> rows df = [])
      \<and> (set (labels df) \<subseteq> set data_columns \<longrightarrow>
           distinct (rows out)
           \<and> (\<forall>r \<in> set (rows df). (\<forall>x \<in> set r. is_Str x \<or> x = NaN) \<longrightarrow>
                (\<exists>r'. common ud (df\<lparr>rows := [r]\<rparr>) PATH = Inr (out\<lparr>rows := [r']\<rparr>)
                      \<and> count_list (rows out) r' = 1))))
   \<and> (prep_state ev state_dir method = Inr res \<longrightarrow>
        distinct (rows res)
        \<and> (\<exists>files dfs. state_files ev state_dir = Inr files \<and> call_each ev method files = Inr dfs
              \<and> (\<forall>d \<in> set dfs. \<forall>r \<in> set (rows d). count_list (rows res) r = 1)))"
proof (intro conjI impI)
  assume a: "wf_frame df \<and> common ud df PATH = Inr out"
  then have wf: "wf_frame df" and c: "common ud df PATH = Inr out" by simp_all
  note cr = common_rows[OF wf c]
  show "length (rows out) = card (clean_row ud (columns df) ` set (rows df))"
    using wf c by (rule common_length)
  show le: "length (rows out) \<le> card (set (rows df))" using wf c by (rule common_shorter)
  show "rows out = [] \<longleftrightarrow> rows df = []" using wf c by (rule common_no_rows)
  {
    assume "\<not> distinct (rows df)"
    then have "card (set (rows df)) \<noteq> length (rows df)" using card_distinct by blast
    moreover have "card (set (rows df)) \<le> length (rows df)" by (rule card_length)
    ultimately show "length (rows out) < length (rows df)" using le by linarith
  }
  assume s: "set (labels df) \<subseteq> set data_columns"
  show d: "distinct (rows out)" using wf c s by (rule common_distinct_rows)
  show "\<forall>r \<in> set (rows df). (\<forall>x \<in> set r. is_Str x \<or> x = NaN) \<longrightarrow>
          (\<exists>r'. common ud (df\<lparr>rows := [r]\<rparr>) PATH = Inr (out\<lparr>rows := [r']\<rparr>)
                \<and> count_list (rows out) r' = 1)"
  proof (intro ballI impI)
    fix r assume r: "r \<in> set (rows df)" and t: "\<forall>x \<in> set r. is_Str x \<or> x = NaN"
    let ?r = "finish_row (labels df) PATH (clean_row ud (columns df) r)"
    have one: "common ud (df\<lparr>rows := [r]\<rparr>) PATH = Inr (out\<lparr>rows := [?r]\<rparr>)"
      using wf c r t by (rule common_single_row)
    have "?r \<in> set (rows out)" unfolding cr(2) using r by (simp add: set_dedup)
    with d have "count_list (rows out) ?r = 1" by (rule count_list_distinct)
    with one show "\<exists>r'. common ud (df\<lparr>rows := [r]\<rparr>) PATH = Inr (out\<lparr>rows := [r']\<rparr>)
                \<and> count_list (rows out) r' = 1" by blast
  qed
next
  assume p: "prep_state ev state_dir method = Inr res"
  from prep_state_rows[OF p] obtain files dfs where
    f: "state_files ev state_dir = Inr files" and c: "call_each ev method files = Inr dfs"
    and r: "rows res = dedup (concat (map rows dfs))" by blast
  show d: "distinct (rows res)" unfolding r by (rule distinct_dedup)
  have "count_list (rows res) x = 1" if "y \<in> set dfs" "x \<in> set (rows y)" for x y
  proof -
    have "x \<in> set (rows res)" unfolding r set_dedup using that by auto
    with d show ?thesis by (rule count_list_distinct)
  qed
  with f c show "\<exists>files dfs. state_files ev state_dir = Inr files \<and> call_each ev method files = Inr dfs
              \<and> (\<forall>d \<in> set dfs. \<forall>r \<in> set (rows d). count_list (rows res) r = 1)"
    by blast
qed

theorem duplicates_removed_witness:
  "wf_frame twin_frame \<and> common sample_ud twin_frame ''Nebraska/Fish/t.txt'' = Inr twin_out
   \<and> set (labels twin_frame) \<subseteq> set data_columns
   \<and> rows twin_frame ! 0 = rows twin_frame ! 1
   \<and> length (rows twin_frame) = 3 \<and> length (rows twin_out) = 2 \<and> distinct (rows twin_out)
   \<and> (\<exists>r'. common sample_ud (twin_frame\<lparr>rows := [rows twin_frame ! 0]\<rparr>) ''Nebraska/Fish/t.txt''
              = Inr (twin_out\<lparr>rows := [r']\<rparr>)
            \<and> count_list (rows twin_out) r' = 1)
   \<and> common sample_ud demo_frame ''Nebraska/Hunt/a.txt'' = Inr demo_out
   \<and> distinct (rows demo_frame) \<and> length (rows demo_frame) = 3
   \<and> card (clean_row sample_ud (columns demo_frame) ` set (rows demo_frame)) = 2
   \<and> length (rows demo_out) = 2
   \<and> prep_state state_env ''Nebraska'' ''nebraska'' = Inr ne_plain_out
   \<and> call_each state_env ''nebraska'' [''Nebraska/Hunt/a.txt'', ''Nebraska/Hunt/b.txt'']
       = Inr [ne_plain_out, ne_plain_out]
   \<and> distinct (rows ne_plain_out) \<and> length (rows ne_plain_out) = 1"
proof -
  have s: "set (labels twin_frame) \<subseteq> set data_columns"
    by (simp add: twin_frame_def labels_def data_columns_def)
  have r: "rows twin_frame ! 0 \<in> set (rows twin_frame)" by (simp add: twin_frame_def)
  have t: "\<forall>x \<in> set (rows twin_frame ! 0). is_Str x \<or> x = NaN" by (simp add: twin_frame_def)
  note d = duplicates_removed[of twin_frame sample_ud "''Nebraska/Fish/t.txt''" twin_out
      state_env "''Nebraska''" "''nebraska''" ne_plain_out]
  from d twin_wf twin_common s state_demo
  have a: "distinct (rows twin_out)" and b: "distinct (rows ne_plain_out)" by blast+
  from d twin_wf twin_common s r t
  have c: "\<exists>r'. common sample_ud (twin_frame\<lparr>rows := [rows twin_frame ! 0]\<rparr>) ''Nebraska/Fish/t.txt''
              = Inr (twin_out\<lparr>rows := [r']\<rparr>)
            \<and> count_list (rows twin_out) r' = 1" by blast
  have e: "rows twin_frame ! 0 = rows twin_frame ! 1 \<and> length (rows twin_frame) = 3
           \<and> length (rows twin_out) = 2 \<and> length (rows ne_plain_out) = 1"
    by (simp add: twin_frame_def twin_out_def ne_plain_out_def)
  have g: "length (rows demo_out) = 2 \<and> distinct (rows demo_frame) \<and> length (rows demo_frame) = 3"
    by (simp add: demo_frame_def demo_out_def lit_def)
  from duplicates_removed[of demo_frame sample_ud "''Nebraska/Hunt/a.txt''" demo_out] demo_wf demo_common
  have "length (rows demo_out) = card (clean_row sample_ud (columns demo_frame) ` set (rows demo_frame))"
    by blast
  with g have h: "card (clean_row sample_ud (columns demo_frame) ` set (rows demo_frame)) = 2" by simp
  show ?thesis
    using a b c e g h s twin_wf twin_common demo_common state_demo state_demo_frames by blast
qed

theorem duplicates_removed_counterexample:
  "rows dup_frame ! 0 = rows dup_frame ! 1
   \<and> common sample_ud dup_frame ''Nebraska/Fish/d.txt'' = Inr dup_out
   \<and> count_list (rows dup_out) (rows dup_out ! 0) = 2"
  using dup_common by (simp add: dup_frame_def dup_out_def)

text \<open>
  C6. Take the frame that \<^verbatim>\<open>read_csv\<close> gives for a Nebraska file. If one of
  \<open>permitYear\<close>, \<open>Permit Type\<close>, \<open>FullName\<close> is not among its columns, the transform fails
  with a KeyError. If they are there, and so are the six name, address and zip columns,
  and no column already bears a standard name, the transform succeeds whether or not
  the file has the \<open>Sex\<close> and \<open>email\<close> columns, and its result has the ten standard
  columns, so neither of the two.
\<close>

theorem nebraska_columns:
  assumes rd: "read_csv ev PATH = Inr df"
  shows "(\<not> set ne_required \<subseteq> set (labels df) \<longrightarrow> (\<exists>ns. nebraska ev PATH = Inl (KeyError ns)))
       \<and> (csv_frame df \<and> set ne_required \<subseteq> set (labels df) \<and> set ne_source \<subseteq> set (labels df)
            \<and> snd ` set ne_names \<inter> set (labels df) = {}
          \<longrightarrow> (\<exists>out. nebraska ev PATH = Inr out \<and> labels out = std_columns
                   \<and> ''Sex'' \<notin> set (labels out) \<and> ''email'' \<notin> set (labels out)))"
proof (intro conjI impI)
  assume "\<not> set ne_required \<subseteq> set (labels df)"
  then obtain n where n: "n \<in> set ne_required" "n \<notin> set (labels df)" by blast
  from optional_drop_any[of "''Sex''" df] obtain df1 where
    d1: "(if ''Sex'' \<in> set (labels df) then drop_columns [''Sex''] df else Inr df) = Inr df1"
    and l1: "labels df1 = filter (\<lambda>l. l \<noteq> ''Sex'') (labels df)" by blast
  from optional_drop_any[of "''email''" df1] obtain df2 where
    d2: "(if ''email'' \<in> set (labels df1) then drop_columns [''email''] df1 else Inr df1) = Inr df2"
    and l2: "labels df2 = filter (\<lambda>l. l \<noteq> ''email'') (labels df1)" by blast
  have "n \<notin> set (labels df2)" using n(2) by (simp add: l1 l2)
  from drop_columns_missing[OF n(1) this] obtain ns where
    "drop_columns ne_required df2 = Inl (KeyError ns)" by blast
  then have "nebraska ev PATH = Inl (KeyError ns)"
    unfolding nebraska_def rd sum.case d1 d2 by simp
  then show "\<exists>ns. nebraska ev PATH = Inl (KeyError ns)" by blast
next
  assume a: "csv_frame df \<and> set ne_required \<subseteq> set (labels df) \<and> set ne_source \<subseteq> set (labels df)
            \<and> snd ` set ne_names \<inter> set (labels df) = {}"
  from optional_drop[of df "''Sex''"] a obtain df1 where
    d1: "(if ''Sex'' \<in> set (labels df) then drop_columns [''Sex''] df else Inr df) = Inr df1"
    and c1: "csv_frame df1" and l1: "labels df1 = filter (\<lambda>l. l \<noteq> ''Sex'') (labels df)" by blast
  from optional_drop[OF c1, of "''email''"] obtain df2 where
    d2: "(if ''email'' \<in> set (labels df1) then drop_columns [''email''] df1 else Inr df1) = Inr df2"
    and c2: "csv_frame df2" and l2: "labels df2 = filter (\<lambda>l. l \<noteq> ''email'') (labels df1)" by blast
  have "set ne_required \<subseteq> set (labels df2)"
    using a unfolding l1 l2 by (auto simp: ne_required_def)
  from drop_columns_present[OF this] obtain df3 where d3: "drop_columns ne_required df2 = Inr df3"
    by blast
  have c3: "csv_frame df3" using c2 d3 by (rule csv_frame_drop)
  have l3: "labels df3 = filter (\<lambda>l. l \<notin> set ne_required) (labels df2)"
    using d3 by (rule drop_columns_labels)
  have sub: "set (labels df3) \<subseteq> set (labels df)" unfolding l3 l2 l1 by auto
  have src: "set ne_source \<subseteq> set (labels df3)"
    using a unfolding l3 l2 l1 by (auto simp: ne_source_def ne_required_def)
  have cl: "snd ` set ne_names \<inter> set (labels df3) = {}" using a sub by blast
  let ?d = "rename ne_names df3"
  note rn = csv_frame_rename[OF c3 cl]
  have sc: "strip_check ?d" using rn(1,2) by (rule strip_check_texty)
  have "set (''Zip'' # to_title) = ne_label ` set ne_source"
    by (auto simp: ne_label_def ne_names_def ne_source_def to_title_def)
  then have "set (''Zip'' # to_title) \<subseteq> set (labels ?d)" using src unfolding rn(4) by auto
  then have m: "\<forall>n \<in> set (''Zip'' # to_title). (n, Object) \<in> set (columns ?d)"
    using rn(5) unfolding labels_def by force
  from common_ok[OF rn(1) sc rn(3) m, where ud="unicode_db ev" and PATH=PATH] obtain out where
    o: "common (unicode_db ev) ?d PATH = Inr out" and co: "columns out = out_columns (columns ?d)" by simp
  have "nebraska ev PATH = Inr out"
    unfolding nebraska_def rd sum.case d1 d2 d3 o by simp
  moreover have "labels out = std_columns" using o common_shape by blast
  ultimately show "\<exists>out. nebraska ev PATH = Inr out \<and> labels out = std_columns
                   \<and> ''Sex'' \<notin> set (labels out) \<and> ''email'' \<notin> set (labels out)"
    by (simp add: std_columns_def)
qed

theorem nebraska_columns_witness:
  "read_csv ne_env ''Nebraska/Hunt/plain.txt'' = Inr ne_plain
   \<and> ''Sex'' \<notin> set (labels ne_plain) \<and> ''email'' \<notin> set (labels ne_plain)
   \<and> csv_frame ne_plain \<and> set ne_required \<subseteq> set (labels ne_plain)
   \<and> set ne_source \<subseteq> set (labels ne_plain) \<and> snd ` set ne_names \<inter> set (labels ne_plain) = {}
   \<and> nebraska ne_env ''Nebraska/Hunt/plain.txt'' = Inr ne_plain_out
   \<and> labels ne_plain_out = std_columns
   \<and> read_csv ne_env ''Nebraska/Hunt/no_year.txt'' = Inr ne_no_year
   \<and> \<not> set ne_required \<subseteq> set (labels ne_no_year)
   \<and> nebraska ne_env ''Nebraska/Hunt/no_year.txt'' = Inl (KeyError [''permitYear''])"
proof -
  have r1: "read_csv ne_env ''Nebraska/Hunt/plain.txt'' = Inr ne_plain" by (simp add: ne_env_def)
  have r2: "read_csv ne_env ''Nebraska/Hunt/no_year.txt'' = Inr ne_no_year" by (simp add: ne_env_def)
  have l: "labels ne_plain = [''permitYear'', ''Permit Type'', ''FullName'', ''firstName'', ''middleName'',
              ''lastName'', ''street'', ''city'', ''state'', ''zip'']"
    by (simp add: ne_plain_def labels_def)
  have c: "csv_frame ne_plain"
    unfolding csv_frame_def l by (simp add: wf_frame_def ne_plain_def)
  have h: "set ne_required \<subseteq> set (labels ne_plain)" "set ne_source \<subseteq> set (labels ne_plain)"
    "snd ` set ne_names \<inter> set (labels ne_plain) = {}"
    unfolding l by (simp_all add: ne_required_def ne_source_def ne_names_def)
  have n: "\<not> set ne_required \<subseteq> set (labels ne_no_year)"
    by (simp add: ne_required_def ne_no_year_def labels_def)
  from nebraska_columns[OF r1] c h ne_plain_demo
  have o: "labels ne_plain_out = std_columns" by simp
  from nebraska_columns[OF r2] n ne_no_year_demo
  have f: "nebraska ne_env ''Nebraska/Hunt/no_year.txt'' = Inl (KeyError [''permitYear''])" by simp
  show ?thesis using r1 r2 c h n o f ne_plain_demo unfolding l by simp
qed

text \<open>
  C7. Whenever the common finisher returns, its result has exactly the ten standard
  columns in the fixed order, and every row has ten cells.
\<close>

theorem common_columns:
  "common ud df PATH = Inr out \<Longrightarrow>
   labels out = std_columns \<and> (\<forall>r \<in> set (rows out). length r = 10)"
  by (rule common_shape)

theorem common_columns_witness:
  "common sample_ud demo_frame ''Nebraska/Hunt/a.txt'' = Inr demo_out \<and> labels demo_out = std_columns
   \<and> list_all (\<lambda>r. length r = 10) (rows demo_out)"
  using common_columns[OF demo_common] demo_common by (simp add: list_all_iff)

text \<open>
  C8. A frame with no row whose labels are not repeated and which has the Zip column
  and the five name and address columns as text columns goes through the finisher
  without an error: the result has the ten standard columns and no row.
\<close>

theorem common_zero_rows:
  assumes "rows df = []" and "distinct (labels df)"
    and "\<forall>n \<in> set (''Zip'' # to_title). (n, Object) \<in> set (columns df)"
  shows "\<exists>out. common ud df PATH = Inr out \<and> labels out = std_columns \<and> rows out = []"
proof -
  have wf: "wf_frame df" using assms(1) by (simp add: wf_frame_def)
  have sc: "strip_check df" using assms(1) by (simp add: strip_check_def str_accessible_def column_at_def)
  have "common ud df PATH = Inr \<lparr>columns = out_columns (columns df), rows = []\<rparr>"
    using common_ok[OF wf sc assms(2,3), where ud=ud and PATH=PATH] assms(1) by simp
  moreover have "labels \<lparr>columns = out_columns (columns df), rows = []\<rparr> = std_columns"
    by (simp add: labels_def out_columns_def comp_def)
  ultimately show ?thesis by simp
qed

theorem common_zero_rows_witness:
  "rows empty_frame = [] \<and> distinct (labels empty_frame)
   \<and> list_all (\<lambda>n. (n, Object) \<in> set (columns empty_frame)) (''Zip'' # to_title)
   \<and> common sample_ud empty_frame ''Nebraska/Hunt/none.txt'' = Inr empty_out
   \<and> labels empty_out = std_columns \<and> rows empty_out = []"
proof -
  have a: "rows empty_frame = []" by (simp add: empty_frame_def)
  have b: "distinct (labels empty_frame)" by (simp add: empty_frame_def labels_def)
  have c: "\<forall>n \<in> set (''Zip'' # to_title). (n, Object) \<in> set (columns empty_frame)"
    by (simp add: empty_frame_def to_title_def)
  from common_zero_rows[OF a b c, where ud=sample_ud and PATH="''Nebraska/Hunt/none.txt''"] empty_common
  have "labels empty_out = std_columns \<and> rows empty_out = []" by simp
  then show ?thesis using a b c empty_common by (simp add: list_all_iff)
qed

text \<open>
  C9, as the code has it. A state folder that cannot be listed is an error. Otherwise
  the files of the category folders are gathered; a folder without files gives an empty
  list, which adds nothing. When some folder holds a file and every file is
  transformed, the aggregation returns the distinct rows of the files' frames. When no
  folder holds a file, there is nothing to concatenate and the aggregation fails with
  a ValueError.
\<close>

theorem prep_state_folders:
  "(listdir ev state_dir = None \<longrightarrow> prep_state ev state_dir method = Inl OSError)
   \<and> (listdir ev folder = Some ns \<and> filter (\<lambda>f. isfile ev (join folder f)) ns = []
        \<and> folder_files ev folders = Inr fl
      \<longrightarrow> folder_files ev (folder # folders) = Inr ([] # fl))
   \<and> (state_files ev state_dir = Inr files \<and> files \<noteq> [] \<and> call_each ev method files = Inr dfs
      \<longrightarrow> (\<exists>out. prep_state ev state_dir method = Inr out \<and> labels out = std_columns
                 \<and> rows out = dedup (concat (map rows dfs))))
   \<and> (state_files ev state_dir = Inr [] \<longrightarrow> prep_state ev state_dir method = Inl ValueError)"
proof (intro conjI impI)
  assume "listdir ev state_dir = None"
  then show "prep_state ev state_dir method = Inl OSError" by (rule prep_state_no_root)
next
  assume "listdir ev folder = Some ns \<and> filter (\<lambda>f. isfile ev (join folder f)) ns = []
        \<and> folder_files ev folders = Inr fl"
  then show "folder_files ev (folder # folders) = Inr ([] # fl)" by simp
next
  assume "state_files ev state_dir = Inr files \<and> files \<noteq> [] \<and> call_each ev method files = Inr dfs"
  then show "\<exists>out. prep_state ev state_dir method = Inr out \<and> labels out = std_columns
                 \<and> rows out = dedup (concat (map rows dfs))"
    using prep_state_ok by blast
next
  assume "state_files ev state_dir = Inr []"
  then show "prep_state ev state_dir method = Inl ValueError" by (rule prep_state_no_files)
qed

theorem prep_state_folders_witness:
  "listdir state_env ''Nebraska/Fish'' = Some []
   \<and> folder_files state_env [''Nebraska/Hunt'', ''Nebraska/Fish'']
       = Inr [[''Nebraska/Hunt/a.txt'', ''Nebraska/Hunt/b.txt''], []]
   \<and> state_files state_env ''Nebraska'' = Inr [''Nebraska/Hunt/a.txt'', ''Nebraska/Hunt/b.txt'']
   \<and> prep_state state_env ''Nebraska'' ''nebraska'' = Inr ne_plain_out
   \<and> rows ne_plain_out = dedup (concat (map rows [ne_plain_out, ne_plain_out]))
   \<and> listdir state_env ''Dakota'' = None
   \<and> prep_state state_env ''Dakota'' ''nebraska'' = Inl OSError
   \<and> state_files empty_state_env ''Nebraska'' = Inr []
   \<and> prep_state empty_state_env ''Nebraska'' ''nebraska'' = Inl ValueError"
proof -
  have n: "listdir state_env ''Dakota'' = None" by (simp add: state_env_def)
  have e: "state_files empty_state_env ''Nebraska'' = Inr []" by code_simp
  have f: "listdir state_env ''Nebraska/Fish'' = Some []" by (simp add: state_env_def)
  note t = prep_state_folders[of state_env "''Nebraska''" "''nebraska''" _ _ _ _
      "[''Nebraska/Hunt/a.txt'', ''Nebraska/Hunt/b.txt'']" "[ne_plain_out, ne_plain_out]"]
  from t state_demo_files state_demo_frames state_demo
  have r: "rows ne_plain_out = dedup (concat (map rows [ne_plain_out, ne_plain_out]))" by auto
  from prep_state_folders[of state_env "''Dakota''" "''nebraska''"] n
  have d: "prep_state state_env ''Dakota'' ''nebraska'' = Inl OSError" by blast
  from prep_state_folders[of empty_state_env "''Nebraska''" "''nebraska''"] e
  have v: "prep_state empty_state_env ''Nebraska'' ''nebraska'' = Inl ValueError" by blast
  show ?thesis using n e f r d v state_demo state_demo_files state_demo_folders by simp
qed

theorem empty_folder_counterexample:
  "listdir empty_state_env ''Nebraska'' = Some [''Hunt'']
   \<and> isfile empty_state_env ''Nebraska/Hunt'' = False
   \<and> listdir empty_state_env ''Nebraska/Hunt'' = Some []
   \<and> prep_state empty_state_env ''Nebraska'' ''nebraska'' = Inl ValueError"
  using empty_state_demo by (simp add: empty_state_env_def)

text \<open>
  C10. In the result of the North Dakota transform the Suffix column (the fourth) was
  never in the sheets: reindexing creates it, so it is of numeric dtype and every row
  holds the missing value there, not an empty string.
\<close>

theorem north_dakota_suffix_missing:
  assumes "north_dakota ev PATH = Inr out"
  shows "columns out ! 3 = (''Suffix'', Numeric)
         \<and> (\<forall>r \<in> set (rows out). r ! 3 = NaN \<and> r ! 3 \<noteq> Str [] \<and> \<not> is_Str (r ! 3))"
proof -
  from assms obtain sheets df df1 where
    "read_excel ev PATH = Inr sheets" "pd_concat sheets = Inr df"
    and sc: "set_columns nd_names df = Inr df1" and c: "common (unicode_db ev) df1 PATH = Inr out"
    by (auto simp: north_dakota_def split: sum.splits)
  have l: "labels df1 = nd_names" using sc by (rule set_columns_labels)
  have k: "''Suffix'' \<notin> set (labels df1)" unfolding l by (simp add: nd_names_def)
  note a = common_absent_column[OF c k]
  have lab: "labels out = std_columns" and len: "\<forall>r \<in> set (rows out). length r = 10"
    using common_shape[OF c] by auto
  have "length (columns out) = 10" using lab by (simp add: labels_def std_columns_def flip: length_map[of fst])
  then obtain c0 c1 c2 c3 c4 c5 c6 c7 c8 c9 where co: "columns out = [c0, c1, c2, c3, c4, c5, c6, c7, c8, c9]"
    by (auto simp: length_Suc_conv eval_nat_numeral)
  have "fst c3 = ''Suffix''" "fst c0 = ''FirstName''" "fst c1 = ''MiddleName''" "fst c2 = ''LastName''"
    using lab unfolding co labels_def std_columns_def by simp_all
  then have c3: "columns out ! 3 = (''Suffix'', Numeric)"
    using a(2) unfolding co by (cases c0; cases c1; cases c2; cases c3) (auto split: if_splits)
  have "r ! 3 = NaN" if "r \<in> set (rows out)" for r
  proof -
    have "length r = 10" using len that by simp
    then obtain x0 x1 x2 x3 x4 x5 x6 x7 x8 x9 where r: "r = [x0, x1, x2, x3, x4, x5, x6, x7, x8, x9]"
      by (auto simp: length_Suc_conv eval_nat_numeral)
    from a(1) that have "map_of (zip std_columns r) ''Suffix'' = None \<or> map_of (zip std_columns r) ''Suffix'' = Some NaN"
      by simp
    then show ?thesis unfolding r std_columns_def by simp
  qed
  then show ?thesis using c3 by auto
qed

theorem north_dakota_suffix_missing_witness:
  "north_dakota nd_env ''North Dakota/Hunt/a.xlsx'' = Inr nd_out
   \<and> columns nd_out ! 3 = (''Suffix'', Numeric)
   \<and> list_all (\<lambda>r. r ! 3 = NaN) (rows nd_out)"
  using north_dakota_suffix_missing[OF nd_demo] nd_demo by (simp add: list_all_iff)

end
